theory Spec2Isabelle
  imports Complex_Main
begin

section \<open>Deployment automation: data model\<close>

text \<open>
  A shallow embedding of \<^verbatim>\<open>containers/deployment/deployment-automation.py\<close>:
  the enums and dataclasses, the feature-flag engine, plan creation, the metrics
  validation, the four strategy executors, the rollback and \<^verbatim>\<open>execute_deployment\<close>.
\<close>

datatype DeploymentStrategy = ROLLING_UPDATE | BLUE_GREEN | CANARY | IMMEDIATE

datatype DeploymentStatus = PENDING | IN_PROGRESS | VALIDATING | COMPLETED | FAILED | ROLLED_BACK

datatype EnvironmentType = DEVELOPMENT | STAGING | PRODUCTION

text \<open>
  \<^verbatim>\<open>DeploymentStrategy(value)\<close> and \<^verbatim>\<open>EnvironmentType(value)\<close> look a member up by its
  value and raise \<^verbatim>\<open>ValueError\<close> for any other string; \<open>None\<close> is that error.
\<close>

definition strategy_of_value :: "string \<Rightarrow> DeploymentStrategy option" where
  "strategy_of_value v =
     (if v = ''rolling_update'' then Some ROLLING_UPDATE
      else if v = ''blue_green'' then Some BLUE_GREEN
      else if v = ''canary'' then Some CANARY
      else if v = ''immediate'' then Some IMMEDIATE
      else None)"

definition environment_of_value :: "string \<Rightarrow> EnvironmentType option" where
  "environment_of_value v =
     (if v = ''development'' then Some DEVELOPMENT
      else if v = ''staging'' then Some STAGING
      else if v = ''production'' then Some PRODUCTION
      else None)"

text \<open>
  The dataclass \<^verbatim>\<open>DeploymentPlan\<close>. \<^verbatim>\<open>progress_percentage\<close> is declared \<^verbatim>\<open>int\<close> but
  the executors store in it the integers 10, 20, ... and the floats
  \<^verbatim>\<open>20 + (traffic_percentage * 0.7)\<close> and \<^verbatim>\<open>progress + 60 / len(plan.services)\<close>. All of
  them are finite, and the field holds the number they denote, a real: the integer
  \<^verbatim>\<open>20\<close> and the float \<^verbatim>\<open>20.0\<close> are the same value. The floats are computed in binary
  floating point (section \<open>Floating-point arithmetic\<close>). \<^verbatim>\<open>created_at\<close> is a time stamp.
\<close>

record DeploymentPlan =
  plan_id :: string
  name :: string
  strategy :: DeploymentStrategy
  source_image :: string
  target_environment :: EnvironmentType
  services :: "string list"
  rollback_on_failure :: bool
  validation_checks :: "string list"
  timeout_seconds :: int
  created_by :: string
  created_at :: nat
  status :: DeploymentStatus
  progress_percentage :: real
  error_message :: "string option"

text \<open>
  The dataclass \<^verbatim>\<open>FeatureFlag\<close>; its field \<^verbatim>\<open>name\<close> is \<open>flag_name\<close> here, the plan
  has a field of the same name. \<^verbatim>\<open>conditions\<close> is an opaque dictionary of strings.
\<close>

record FeatureFlag =
  flag_name :: string
  enabled :: bool
  rollout_percentage :: int
  target_segments :: "string list"
  environments :: "string list"
  conditions :: "(string \<times> string) list"

section \<open>Feature flags\<close>

text \<open>
  \<^verbatim>\<open>user_hash = hash(user_id) % 100\<close>. The built-in \<^verbatim>\<open>hash\<close> of a string is fixed for
  the lifetime of one interpreter process, so it is a parameter \<open>h\<close>; Python's \<^verbatim>\<open>%\<close>
  with a positive modulus gives a result in \<open>0..99\<close>, as \<open>mod\<close> on \<open>int\<close> does.
\<close>

definition user_hash :: "(string \<Rightarrow> int) \<Rightarrow> string \<Rightarrow> int" where
  "user_hash h user_id = h user_id mod 100"

text \<open>
  \<^verbatim>\<open>is_feature_enabled\<close> (lines 647--673). \<open>flags\<close> is \<^verbatim>\<open>self.feature_flags\<close>, \<open>h\<close> the
  process's string hash and \<open>draw\<close> the value \<^verbatim>\<open>random.randint(0, 99)\<close> returns in this
  call, read only on the anonymous path. An optional argument is tested for truth
  (\<^verbatim>\<open>if environment and ...\<close>, \<^verbatim>\<open>if user_id:\<close>): \<^verbatim>\<open>None\<close> and the empty string are
  both false. \<open>given_not_in a xs\<close> is \<^verbatim>\<open>a and a not in xs\<close>.
\<close>

definition given_not_in :: "string option \<Rightarrow> string list \<Rightarrow> bool" where
  "given_not_in a xs = (case a of None \<Rightarrow> False | Some v \<Rightarrow> v \<noteq> [] \<and> v \<notin> set xs)"

definition is_feature_enabled ::
  "(string \<Rightarrow> int) \<Rightarrow> int \<Rightarrow> (string \<rightharpoonup> FeatureFlag) \<Rightarrow> string \<Rightarrow>
   string option \<Rightarrow> string option \<Rightarrow> string option \<Rightarrow> bool" where
  "is_feature_enabled h draw flags feature_name user_id user_segment environment =
     (case flags feature_name of
        None \<Rightarrow> False
      | Some flag \<Rightarrow>
          if given_not_in environment (environments flag) then False
          else if given_not_in user_segment (target_segments flag)
                  \<and> ''all'' \<notin> set (target_segments flag) then False
          else if rollout_percentage flag < 100 then
            (case user_id of
               None \<Rightarrow> draw < rollout_percentage flag
             | Some u \<Rightarrow>
                 if u \<noteq> [] then user_hash h u < rollout_percentage flag
                 else draw < rollout_percentage flag)
          else enabled flag)"

text \<open>
  The keyword arguments of \<^verbatim>\<open>update_feature_flag\<close>: \<open>None\<close> is a keyword that was not
  passed.
\<close>

record flag_kwargs =
  kw_enabled :: "bool option"
  kw_rollout_percentage :: "int option"
  kw_target_segments :: "string list option"
  kw_environments :: "string list option"

text \<open>
  \<^verbatim>\<open>update_feature_flag\<close> (lines 675--692): an unknown name is logged and the call
  returns; otherwise the flag object is updated in place, one field per keyword given.
\<close>

definition update_feature_flag ::
  "(string \<rightharpoonup> FeatureFlag) \<Rightarrow> string \<Rightarrow> flag_kwargs \<Rightarrow> (string \<rightharpoonup> FeatureFlag)" where
  "update_feature_flag flags feature_name kw =
     (case flags feature_name of
        None \<Rightarrow> flags
      | Some flag \<Rightarrow>
          let f1 = (case kw_enabled kw of None \<Rightarrow> flag | Some v \<Rightarrow> flag\<lparr>enabled := v\<rparr>);
              f2 = (case kw_rollout_percentage kw of None \<Rightarrow> f1
                    | Some v \<Rightarrow> f1\<lparr>rollout_percentage := v\<rparr>);
              f3 = (case kw_target_segments kw of None \<Rightarrow> f2
                    | Some v \<Rightarrow> f2\<lparr>target_segments := v\<rparr>);
              f4 = (case kw_environments kw of None \<Rightarrow> f3 | Some v \<Rightarrow> f3\<lparr>environments := v\<rparr>)
          in flags(feature_name \<mapsto> f4))"

text \<open>The three flags \<^verbatim>\<open>_load_feature_flags\<close> installs (lines 202--231).\<close>

definition load_feature_flags :: "string \<rightharpoonup> FeatureFlag" where
  "load_feature_flags =
     [''enhanced_video_processing'' \<mapsto>
        \<lparr>flag_name = ''enhanced_video_processing'', enabled = False, rollout_percentage = 0,
         target_segments = [''beta_users''], environments = [''staging''], conditions = []\<rparr>,
      ''ai_inference_v2'' \<mapsto>
        \<lparr>flag_name = ''ai_inference_v2'', enabled = True, rollout_percentage = 25,
         target_segments = [''premium_users''], environments = [''staging'', ''production''],
         conditions = [(''user_tier'', ''premium'')]\<rparr>,
      ''real_time_collaboration'' \<mapsto>
        \<lparr>flag_name = ''real_time_collaboration'', enabled = True, rollout_percentage = 100,
         target_segments = [''all''], environments = [''production''], conditions = []\<rparr>]"

section \<open>Plan creation\<close>

text \<open>
  The keyword arguments of \<^verbatim>\<open>create_deployment_plan\<close>; \<open>None\<close> is a keyword that was
  not passed. \<^verbatim>\<open>kwargs["source_image"]\<close> and \<^verbatim>\<open>kwargs["target_environment"]\<close> raise
  \<^verbatim>\<open>KeyError\<close> when absent, the others have defaults.
\<close>

record plan_kwargs =
  kw_name :: "string option"
  kw_strategy :: "string option"
  kw_source_image :: "string option"
  kw_target_environment :: "string option"
  kw_services :: "string list option"
  kw_rollback_on_failure :: "bool option"
  kw_validation_checks :: "string list option"
  kw_timeout_seconds :: "int option"
  kw_created_by :: "string option"

datatype exn = ValueError string | KeyError string

text \<open>\<^verbatim>\<open>kwargs.get(key, default)\<close>.\<close>

definition get_or :: "'a option \<Rightarrow> 'a \<Rightarrow> 'a" where
  "get_or v d = (case v of None \<Rightarrow> d | Some x \<Rightarrow> x)"

text \<open>The decimal numeral of \<^verbatim>\<open>int(time.time())\<close> inside the plan id.\<close>

fun str_nat :: "nat \<Rightarrow> string" where
  "str_nat n =
     (if n < 10 then [''0123456789'' ! n]
      else str_nat (n div 10) @ [''0123456789'' ! (n mod 10)])"

declare str_nat.simps [simp del]

text \<open>
  The state of a \<^verbatim>\<open>DeploymentAutomation\<close> object that the operations below read and
  write: the registry of active plans, the history and the flags.
\<close>

record automation =
  active_deployments :: "string \<rightharpoonup> DeploymentPlan"
  deployment_history :: "DeploymentPlan list"
  feature_flags :: "string \<rightharpoonup> FeatureFlag"

text \<open>
  The constructor call \<^verbatim>\<open>DeploymentPlan(...)\<close> (lines 237--250) once the strategy, the
  image and the environment have been read. \<open>now\<close> is \<^verbatim>\<open>int(time.time())\<close> and
  \<open>utcnow\<close> is \<^verbatim>\<open>datetime.utcnow()\<close>; the id is
  \<^verbatim>\<open>f"deploy_{int(time.time())}_{kwargs.get('strategy', 'rolling')}"\<close>.
\<close>

definition new_plan ::
  "nat \<Rightarrow> nat \<Rightarrow> plan_kwargs \<Rightarrow> DeploymentStrategy \<Rightarrow> string \<Rightarrow> EnvironmentType
   \<Rightarrow> DeploymentPlan" where
  "new_plan now utcnow kw strat img env =
     (let pid = ''deploy_'' @ str_nat now @ ''_'' @ get_or (kw_strategy kw) ''rolling'' in
      \<lparr>plan_id = pid,
       name = get_or (kw_name kw) (''Deployment '' @ pid),
       strategy = strat,
       source_image = img,
       target_environment = env,
       services = get_or (kw_services kw) [],
       rollback_on_failure = get_or (kw_rollback_on_failure kw) True,
       validation_checks = get_or (kw_validation_checks kw) [],
       timeout_seconds = get_or (kw_timeout_seconds kw) 1800,
       created_by = get_or (kw_created_by kw) ''system'',
       created_at = utcnow,
       status = PENDING,
       progress_percentage = 0,
       error_message = None\<rparr>)"

text \<open>
  \<^verbatim>\<open>create_deployment_plan\<close> (lines 233--255). The constructor's arguments are
  evaluated in the order written, so the strategy's \<^verbatim>\<open>ValueError\<close> comes first, then
  the image's \<^verbatim>\<open>KeyError\<close>, then the environment's errors; an exception leaves \<open>self\<close>
  as it was. There is no check of \<^verbatim>\<open>services\<close>. The result pairs the exception or the
  plan id with the state after the call.
\<close>

definition create_deployment_plan ::
  "nat \<Rightarrow> nat \<Rightarrow> plan_kwargs \<Rightarrow> automation \<Rightarrow> (exn + string) \<times> automation" where
  "create_deployment_plan now utcnow kw a =
     (case strategy_of_value (get_or (kw_strategy kw) ''rolling_update'') of
        None \<Rightarrow> (Inl (ValueError (get_or (kw_strategy kw) ''rolling_update'')), a)
      | Some strat \<Rightarrow>
          (case kw_source_image kw of
             None \<Rightarrow> (Inl (KeyError ''source_image''), a)
           | Some img \<Rightarrow>
               (case kw_target_environment kw of
                  None \<Rightarrow> (Inl (KeyError ''target_environment''), a)
                | Some e \<Rightarrow>
                    (case environment_of_value e of
                       None \<Rightarrow> (Inl (ValueError e), a)
                     | Some env \<Rightarrow>
                         let plan = new_plan now utcnow kw strat img env in
                         (Inr (plan_id plan),
                          a\<lparr>active_deployments :=
                              (active_deployments a)(plan_id plan \<mapsto> plan)\<rparr>)))))"

section \<open>Floating-point arithmetic\<close>

text \<open>
  A Python \<^verbatim>\<open>float\<close> is an IEEE 754 binary64 number: 53 significant bits, exponents
  from \<open>-1022\<close> to 1023, round to nearest with ties to even. A finite float is kept as
  the real number it denotes.

  \<open>bit_length n\<close> is \<^verbatim>\<open>n.bit_length()\<close>. For \<open>x > 0\<close>, \<open>exponent x\<close> is the integer \<open>e\<close> with
  \<open>2 ^ e \<le> x < 2 ^ (e + 1)\<close>, and \<open>pow2 e\<close> is \<open>2 ^ e\<close> for an integer \<open>e\<close> of either sign.
  \<open>round_half_even y\<close> is the integer nearest to \<open>y\<close>, the even one of the two when \<open>y\<close>
  lies half-way.
\<close>

fun bit_length :: "nat \<Rightarrow> nat" where
  "bit_length n = (if n = 0 then 0 else Suc (bit_length (n div 2)))"

declare bit_length.simps [simp del]

definition exponent :: "real \<Rightarrow> int" where
  "exponent x = (if 1 \<le> x then int (bit_length (nat \<lfloor>x\<rfloor>)) - 1
                 else - int (bit_length (nat (\<lceil>1 / x\<rceil> - 1))))"

definition pow2 :: "int \<Rightarrow> real" where
  "pow2 e = (if 0 \<le> e then 2 ^ nat e else 1 / 2 ^ nat (- e))"

definition round_half_even :: "real \<Rightarrow> int" where
  "round_half_even y =
     (let f = \<lfloor>y\<rfloor>; d = y - of_int f in
      if d < 1 / 2 then f else if 1 / 2 < d then f + 1 else if even f then f else f + 1)"

text \<open>
  \<open>binary64 x\<close> is the real \<open>x\<close> rounded to a float: to a multiple of the unit in the
  last place \<open>u\<close> of its binade, which is \<open>2 ^ (e - 52)\<close> for the exponent \<open>e\<close> of \<open>x\<close> and
  \<open>2 ^ (- 1074)\<close> in the subnormal range. An operation on floats whose exact result is
  \<open>x\<close> returns \<open>binary64 x\<close> as long as that is below \<open>2 ^ 1024\<close> in absolute value; so
  does the reading of a decimal literal (\<^verbatim>\<open>0.7\<close> is \<open>binary64 (7 / 10)\<close>, which is
  \<open>3152519739159347 / 2 ^ 52\<close>).
\<close>

definition binary64 :: "real \<Rightarrow> real" where
  "binary64 x =
     (if x = 0 then 0
      else let u = pow2 (max (exponent \<bar>x\<bar>) (- 1022) - 52)
           in of_int (round_half_even (x / u)) * u)"

text \<open>
  The conversion of an \<^verbatim>\<open>int\<close> operand to \<^verbatim>\<open>float\<close>, which \<^verbatim>\<open>int * float\<close> and
  \<^verbatim>\<open>int + float\<close> make first: the nearest float, and \<^verbatim>\<open>OverflowError\<close> (\<open>None\<close>) for an
  integer with no finite float near it, from \<open>2 ^ 1024 - 2 ^ 970\<close> on in absolute value.
\<close>

definition float_of_int :: "int \<Rightarrow> real option" where
  "float_of_int n =
     (let x = binary64 (of_int n) in if \<bar>x\<bar> < 2 ^ 1024 then Some x else None)"

text \<open>
  \<^verbatim>\<open>x + y\<close> and \<^verbatim>\<open>x * y\<close> on floats, and \<^verbatim>\<open>a / b\<close> on integers (Python rounds the
  quotient of two integers once). The sums, products and quotients of the executors
  stay below \<open>2 ^ 1024\<close>, so no infinity arises: a product with \<^verbatim>\<open>0.7\<close> is smaller
  than its float operand, and the other terms are at most 100. The divisor is the
  length of a list that is not empty.
\<close>

definition float_add :: "real \<Rightarrow> real \<Rightarrow> real" where
  "float_add x y = binary64 (x + y)"

definition float_mul :: "real \<Rightarrow> real \<Rightarrow> real" where
  "float_mul x y = binary64 (x * y)"

definition true_div :: "int \<Rightarrow> int \<Rightarrow> real" where
  "true_div a b = binary64 (of_int a / of_int b)"

section \<open>Configuration and collaborators\<close>

text \<open>
  The entries of \<^verbatim>\<open>self.config\<close> that the executors read (\<^verbatim>\<open>_load_config\<close>, lines
  110--172). The defaults can be overridden by the YAML file, so the fields are
  arbitrary numbers, not only the defaults.
\<close>

record config =
  initial_traffic_percentage :: int
  traffic_increment :: int
  wait_time_between_steps :: int
  error_rate_threshold :: real
  response_time_threshold :: real
  validation_duration :: int
  auto_promotion :: bool
  slack_webhook :: string

definition default_config :: config where
  "default_config =
     \<lparr>initial_traffic_percentage = 10, traffic_increment = 20, wait_time_between_steps = 300,
      error_rate_threshold = 5, response_time_threshold = 3, validation_duration = 600,
      auto_promotion = False, slack_webhook = ''${SLACK_WEBHOOK_URL}''\<rparr>"

text \<open>
  A Python \<^verbatim>\<open>float\<close> as \<^verbatim>\<open>float(...)\<close> returns it from a sample's text: a finite number,
  an infinity or not-a-number. \<open>float_gt x t\<close> is \<^verbatim>\<open>x > t\<close> for a finite threshold:
  every comparison with not-a-number is false.
\<close>

datatype pyfloat = Finite real | PosInf | NegInf | NaN

fun float_gt :: "pyfloat \<Rightarrow> real \<Rightarrow> bool" where
  "float_gt (Finite x) t = (x > t)"
| "float_gt PosInf t = True"
| "float_gt NegInf t = False"
| "float_gt NaN t = False"

text \<open>
  One answer of the metrics provider to one query, as the code reads it: \<open>Unavailable\<close>
  is any exception raised while the reply is fetched and read (connection error,
  time-out, a body that is not JSON, a missing key, a sample that \<^verbatim>\<open>float\<close> rejects);
  \<open>Body st rs\<close> is a JSON body with \<^verbatim>\<open>data["status"] = st\<close> and the samples
  \<^verbatim>\<open>data["data"]["result"]\<close>, each given by the float of its \<^verbatim>\<open>["value"][1]\<close>.
\<close>

datatype prom_reply = Unavailable | Body string "pyfloat list"

datatype metric_query = error_rate_query | response_time_query

text \<open>
  How a block of statements ends: it falls through with a value, it executes
  \<^verbatim>\<open>return b\<close>, or it raises an exception with the given message.
\<close>

datatype 'a ctl = Normal 'a | Return bool | Raise string

text \<open>
  One of the two checks inside \<^verbatim>\<open>_validate_canary_metrics\<close> (lines 507--516 and
  521--530): the threshold is compared only
  \<^verbatim>\<open>if data["status"] == "success" and data["data"]["result"]\<close>, with the first sample.
\<close>

definition check_reply :: "real \<Rightarrow> prom_reply \<Rightarrow> unit ctl" where
  "check_reply threshold reply =
     (case reply of
        Unavailable \<Rightarrow> Raise ''metrics''
      | Body st rs \<Rightarrow>
          if st = ''success'' \<and> rs \<noteq> [] then
            (if float_gt (hd rs) threshold then Return False else Normal ())
          else Normal ())"

text \<open>
  \<^verbatim>\<open>_validate_canary_metrics\<close> (lines 498--536): the error rate, then the response
  time, then \<^verbatim>\<open>return True\<close>; \<^verbatim>\<open>except Exception: return False\<close>. \<open>prom\<close> answers the
  two queries of this call.
\<close>

definition validate_canary_metrics :: "config \<Rightarrow> (metric_query \<Rightarrow> prom_reply) \<Rightarrow> bool" where
  "validate_canary_metrics cfg prom =
     (case check_reply (error_rate_threshold cfg) (prom error_rate_query) of
        Raise e \<Rightarrow> False
      | Return b \<Rightarrow> b
      | Normal u \<Rightarrow>
          (case check_reply (response_time_threshold cfg) (prom response_time_query) of
             Raise e \<Rightarrow> False
           | Return b \<Rightarrow> b
           | Normal u \<Rightarrow> True))"

text \<open>
  The calls an execution makes to the cluster and to the notification hook. The file
  defines \<^verbatim>\<open>_apply_kubernetes_manifest\<close> (it writes the manifest to a file and runs
  \<^verbatim>\<open>kubectl apply\<close>) and \<^verbatim>\<open>_generate_canary_manifest\<close>; it calls, and does not define,
  \<^verbatim>\<open>_generate_traffic_routing_manifest\<close>, \<^verbatim>\<open>_generate_stable_manifest\<close>,
  \<^verbatim>\<open>_remove_canary_deployment\<close> and the helpers of the other three strategies. Each
  such call is an \<open>action\<close>, named after the helper, whose outcome is a parameter:
  \<open>apply_canary_manifest svc\<close> is
  \<^verbatim>\<open>_apply_kubernetes_manifest(_generate_canary_manifest(plan, svc))\<close>, and so on.
  In the file as it stands a call of an undefined method raises \<^verbatim>\<open>AttributeError\<close>,
  and the canary manifest reaches \<^verbatim>\<open>f.write\<close> as a coroutine that was not awaited,
  which raises \<^verbatim>\<open>TypeError\<close>: that is the world in which these actions raise.
\<close>

datatype action =
    apply_canary_manifest string
  | apply_traffic_routing string int
  | apply_stable_manifest string
  | remove_canary_deployment string
  | deploy_green_environment
  | validate_green_environment
  | switch_traffic_to_green
  | cleanup_blue_environment
  | update_service_rolling string
  | validate_rolling_deployment
  | update_service_immediate string
  | validate_immediate_deployment
  | rollback_blue_green_deployment
  | rollback_standard_deployment
  | post_rollback_notification

datatype outcome = Returns bool | Raises string

text \<open>
  The world one execution runs in: \<open>cluster w n a\<close> is the outcome of action \<open>a\<close> when
  \<open>n\<close> actions were attempted before it (the truth value is read by the validation
  helpers only), \<open>prometheus w k\<close> answers the queries of the \<open>k\<close>-th metrics
  validation, and \<open>gitops w\<close> is the message of the exception \<^verbatim>\<open>_prepare_gitops_repo\<close>
  re-raises, if it does.
\<close>

record world =
  cluster :: "nat \<Rightarrow> action \<Rightarrow> outcome"
  prometheus :: "nat \<Rightarrow> metric_query \<Rightarrow> prom_reply"
  gitops :: "string option"

text \<open>
  The state of one execution: the plan object, the plan after each assignment to one
  of its fields (\<open>trace\<close>), the actions attempted (\<open>calls\<close>), the percentages for which
  \<^verbatim>\<open>_route_traffic_to_canary\<close> ran to its end (the line it logs, \<open>routed\<close>), the number
  of metrics validations made and the delays slept.
\<close>

record run =
  plan :: DeploymentPlan
  trace :: "DeploymentPlan list"
  calls :: "action list"
  routed :: "int list"
  validations :: nat
  slept :: "int list"

definition start_run :: "DeploymentPlan \<Rightarrow> run" where
  "start_run p = \<lparr>plan = p, trace = [], calls = [], routed = [], validations = 0, slept = []\<rparr>"

definition assign :: "(DeploymentPlan \<Rightarrow> DeploymentPlan) \<Rightarrow> run \<Rightarrow> run" where
  "assign f s = s\<lparr>plan := f (plan s), trace := trace s @ [f (plan s)]\<rparr>"

definition set_progress :: "real \<Rightarrow> run \<Rightarrow> run" where
  "set_progress v = assign (\<lambda>p. p\<lparr>progress_percentage := v\<rparr>)"

definition set_status :: "DeploymentStatus \<Rightarrow> run \<Rightarrow> run" where
  "set_status v = assign (\<lambda>p. p\<lparr>status := v\<rparr>)"

definition set_error_message :: "string \<Rightarrow> run \<Rightarrow> run" where
  "set_error_message m = assign (\<lambda>p. p\<lparr>error_message := Some m\<rparr>)"

definition sleep :: "int \<Rightarrow> run \<Rightarrow> run" where
  "sleep d s = s\<lparr>slept := slept s @ [d]\<rparr>"

text \<open>Sequencing: the second block runs only when the first falls through.\<close>

definition seq ::
  "(run \<Rightarrow> 'a ctl \<times> run) \<Rightarrow> ('a \<Rightarrow> run \<Rightarrow> 'b ctl \<times> run) \<Rightarrow> run \<Rightarrow> 'b ctl \<times> run" where
  "seq m k s =
     (case m s of
        (Normal v, s') \<Rightarrow> k v s'
      | (Return b, s') \<Rightarrow> (Return b, s')
      | (Raise e, s') \<Rightarrow> (Raise e, s'))"

definition stmt :: "(run \<Rightarrow> run) \<Rightarrow> run \<Rightarrow> unit ctl \<times> run" where
  "stmt f s = (Normal (), f s)"

definition return :: "bool \<Rightarrow> run \<Rightarrow> bool ctl \<times> run" where
  "return b s = (Return b, s)"

text \<open>An awaited helper whose value is read (\<open>ask\<close>) or dropped (\<open>call\<close>).\<close>

definition ask :: "world \<Rightarrow> action \<Rightarrow> run \<Rightarrow> bool ctl \<times> run" where
  "ask w a s =
     (case cluster w (length (calls s)) a of
        Returns b \<Rightarrow> (Normal b, s\<lparr>calls := calls s @ [a]\<rparr>)
      | Raises m \<Rightarrow> (Raise m, s\<lparr>calls := calls s @ [a]\<rparr>))"

definition call :: "world \<Rightarrow> action \<Rightarrow> run \<Rightarrow> unit ctl \<times> run" where
  "call w a = seq (ask w a) (\<lambda>b. stmt (\<lambda>s. s))"

text \<open>\<^verbatim>\<open>for service in plan.services: body\<close>.\<close>

fun for_services ::
  "(string \<Rightarrow> run \<Rightarrow> unit ctl \<times> run) \<Rightarrow> string list \<Rightarrow> run \<Rightarrow> unit ctl \<times> run" where
  "for_services body [] s = (Normal (), s)"
| "for_services body (x # xs) s =
     (case body x s of
        (Normal v, s') \<Rightarrow> for_services body xs s'
      | (Return b, s') \<Rightarrow> (Return b, s')
      | (Raise e, s') \<Rightarrow> (Raise e, s'))"

section \<open>The canary executor\<close>

text \<open>\<^verbatim>\<open>_deploy_canary_version\<close> (lines 478--487).\<close>

definition deploy_canary_version :: "world \<Rightarrow> run \<Rightarrow> unit ctl \<times> run" where
  "deploy_canary_version w s =
     for_services (\<lambda>svc. call w (apply_canary_manifest svc)) (services (plan s)) s"

text \<open>\<^verbatim>\<open>_route_traffic_to_canary\<close> (lines 489--496).\<close>

definition route_traffic_to_canary :: "world \<Rightarrow> int \<Rightarrow> run \<Rightarrow> unit ctl \<times> run" where
  "route_traffic_to_canary w percentage s =
     seq (for_services (\<lambda>svc. call w (apply_traffic_routing svc percentage))
            (services (plan s)))
         (\<lambda>u. stmt (\<lambda>s'. s'\<lparr>routed := routed s' @ [percentage]\<rparr>)) s"

text \<open>\<^verbatim>\<open>_promote_canary_to_stable\<close> (lines 538--548).\<close>

definition promote_canary_to_stable :: "world \<Rightarrow> run \<Rightarrow> unit ctl \<times> run" where
  "promote_canary_to_stable w s =
     for_services
       (\<lambda>svc. seq (call w (apply_stable_manifest svc))
                 (\<lambda>u. call w (remove_canary_deployment svc)))
       (services (plan s)) s"

text \<open>\<^verbatim>\<open>_rollback_canary_deployment\<close> (lines 572--579).\<close>

definition rollback_canary_deployment :: "world \<Rightarrow> run \<Rightarrow> unit ctl \<times> run" where
  "rollback_canary_deployment w =
     seq (route_traffic_to_canary w 0)
         (\<lambda>u s'. for_services (\<lambda>svc. call w (remove_canary_deployment svc))
                    (services (plan s')) s')"

text \<open>
  One metrics validation inside an execution: the answer of
  \<^verbatim>\<open>_validate_canary_metrics\<close> to the replies of this validation.
\<close>

definition validate_metrics :: "world \<Rightarrow> config \<Rightarrow> run \<Rightarrow> bool \<times> run" where
  "validate_metrics w cfg s =
     (validate_canary_metrics cfg (prometheus w (validations s)),
      s\<lparr>validations := Suc (validations s)\<rparr>)"

text \<open>
  The expression \<^verbatim>\<open>20 + (traffic_percentage * 0.7)\<close> of line 366: the integer
  \<^verbatim>\<open>traffic_percentage\<close> is converted to a float, which raises \<^verbatim>\<open>OverflowError\<close>
  (\<open>None\<close>) for an integer beyond the range of a float; the product with the float
  \<^verbatim>\<open>0.7\<close> is rounded, and so is its sum with 20.
\<close>

definition canary_progress :: "int \<Rightarrow> real option" where
  "canary_progress traffic_percentage =
     (case float_of_int traffic_percentage of
        None \<Rightarrow> None
      | Some x \<Rightarrow> Some (float_add 20 (float_mul x (binary64 (7 / 10)))))"

text \<open>
  The body of \<^verbatim>\<open>while traffic_percentage < 100\<close> (lines 354--367): sleep, validate and
  \<^verbatim>\<open>return False\<close> on a failed validation, else raise the traffic, route it and set
  the progress. It falls through with the new value of \<^verbatim>\<open>traffic_percentage\<close>. The
  new traffic is at most 100, so the assignment of line 366 raises only for a
  percentage below \<open>- (10 ^ 308)\<close>.
\<close>

definition ramp_cycle :: "world \<Rightarrow> config \<Rightarrow> int \<Rightarrow> run \<Rightarrow> int ctl \<times> run" where
  "ramp_cycle w cfg traffic_percentage s =
     (case validate_metrics w cfg (sleep (wait_time_between_steps cfg) s) of
        (ok, s1) \<Rightarrow>
          if \<not> ok then (Return False, s1)
          else
            let traffic' = min 100 (traffic_percentage + traffic_increment cfg) in
            seq (route_traffic_to_canary w traffic')
                (\<lambda>u s2. case canary_progress traffic' of
                          None \<Rightarrow> (Raise ''OverflowError'', s2)
                        | Some v \<Rightarrow> (Normal traffic', set_progress v s2))
                s1)"

text \<open>
  The loop itself (line 353). With an increment of zero it runs for ever while the
  validations pass and the actions return, so the function is partial: \<open>None\<close> is a
  loop that does not end.
\<close>

partial_function (option) canary_ramp ::
  "world \<Rightarrow> config \<Rightarrow> int \<Rightarrow> run \<Rightarrow> (int ctl \<times> run) option" where
  "canary_ramp w cfg traffic_percentage s =
     (if traffic_percentage < 100 then
        (case ramp_cycle w cfg traffic_percentage s of
           (Normal t, s') \<Rightarrow> canary_ramp w cfg t s'
         | (Return b, s') \<Rightarrow> Some (Return b, s')
         | (Raise e, s') \<Rightarrow> Some (Raise e, s'))
      else Some (Normal traffic_percentage, s))"

declare canary_ramp.simps [code]

text \<open>Steps 1 and 2 of \<^verbatim>\<open>_execute_canary_deployment\<close> (lines 339--346).\<close>

definition canary_steps_1_2 :: "world \<Rightarrow> config \<Rightarrow> run \<Rightarrow> unit ctl \<times> run" where
  "canary_steps_1_2 w cfg =
     seq (stmt (set_progress 10))
       (\<lambda>u. seq (deploy_canary_version w)
          (\<lambda>u. seq (stmt (set_progress 20))
             (\<lambda>u. route_traffic_to_canary w (initial_traffic_percentage cfg))))"

text \<open>Step 4 (lines 369--375).\<close>

definition canary_step_4 :: "world \<Rightarrow> run \<Rightarrow> bool ctl \<times> run" where
  "canary_step_4 w =
     seq (stmt (set_progress 95))
       (\<lambda>u. seq (promote_canary_to_stable w)
          (\<lambda>u. seq (stmt (set_progress 100)) (\<lambda>u. return True)))"

text \<open>
  The handler \<^verbatim>\<open>except Exception\<close> of the canary executor (lines 377--380): it rolls
  the canary back and returns \<^verbatim>\<open>False\<close>; an exception raised by the rollback leaves the
  executor. A block that fell off its end returns \<^verbatim>\<open>None\<close>, which the caller reads as
  false.
\<close>

definition canary_except :: "world \<Rightarrow> bool ctl \<times> run \<Rightarrow> bool ctl \<times> run" where
  "canary_except w r =
     (case r of
        (Raise e, s) \<Rightarrow> seq (rollback_canary_deployment w) (\<lambda>u. return False) s
      | (Return b, s) \<Rightarrow> (Return b, s)
      | (Normal v, s) \<Rightarrow> (Return False, s))"

text \<open>\<^verbatim>\<open>_execute_canary_deployment\<close> (lines 332--380).\<close>

definition execute_canary_deployment ::
  "world \<Rightarrow> config \<Rightarrow> run \<Rightarrow> (bool ctl \<times> run) option" where
  "execute_canary_deployment w cfg s =
     (case canary_steps_1_2 w cfg s of
        (Normal u, s1) \<Rightarrow>
          (case canary_ramp w cfg (initial_traffic_percentage cfg) s1 of
             None \<Rightarrow> None
           | Some (Normal t, s2) \<Rightarrow> Some (canary_except w (canary_step_4 w s2))
           | Some (Return b, s2) \<Rightarrow> Some (canary_except w (Return b, s2))
           | Some (Raise e, s2) \<Rightarrow> Some (canary_except w (Raise e, s2)))
      | (Return b, s1) \<Rightarrow> Some (canary_except w (Return b, s1))
      | (Raise e, s1) \<Rightarrow> Some (canary_except w (Raise e, s1)))"

section \<open>The other executors\<close>

text \<open>
  The handler \<^verbatim>\<open>except Exception: return False\<close> of the blue-green, rolling and
  immediate executors.
\<close>

definition plain_except :: "bool ctl \<times> run \<Rightarrow> bool ctl \<times> run" where
  "plain_except r =
     (case r of
        (Raise e, s) \<Rightarrow> (Return False, s)
      | (Return b, s) \<Rightarrow> (Return b, s)
      | (Normal v, s) \<Rightarrow> (Return False, s))"

text \<open>\<^verbatim>\<open>_execute_blue_green_deployment\<close> (lines 382--422).\<close>

definition execute_blue_green_deployment :: "world \<Rightarrow> config \<Rightarrow> run \<Rightarrow> bool ctl \<times> run" where
  "execute_blue_green_deployment w cfg s =
     plain_except
       (seq (stmt (set_progress 20))
          (\<lambda>u. seq (call w deploy_green_environment)
             (\<lambda>u. seq (stmt (set_progress 50))
                (\<lambda>u. seq (stmt (sleep (validation_duration cfg)))
                   (\<lambda>u. seq (ask w validate_green_environment)
                      (\<lambda>ok. if \<not> ok then return False
                            else seq (stmt (set_progress 80))
                              (\<lambda>u. seq (if auto_promotion cfg then call w switch_traffic_to_green
                                        else seq (stmt (sleep 60))
                                               (\<lambda>u. call w switch_traffic_to_green))
                                 (\<lambda>u. seq (stmt (set_progress 95))
                                    (\<lambda>u. seq (call w cleanup_blue_environment)
                                       (\<lambda>u. seq (stmt (set_progress 100))
                                          (\<lambda>u. return True)))))))))) s)"

text \<open>
  The loop of the rolling and the immediate executor: update the service, then
  \<^verbatim>\<open>plan.progress_percentage += 60 / len(plan.services)\<close>, a division of integers and
  an addition of floats (of the integer 20 and a float the first time). The body
  runs only when the list is not empty, so the division is defined.
\<close>

definition update_services :: "world \<Rightarrow> (string \<Rightarrow> action) \<Rightarrow> run \<Rightarrow> unit ctl \<times> run" where
  "update_services w update s =
     for_services
       (\<lambda>svc. seq (call w (update svc))
          (\<lambda>u. stmt (\<lambda>s'. set_progress
                  (float_add (progress_percentage (plan s'))
                     (true_div 60 (int (length (services (plan s')))))) s')))
       (services (plan s)) s"

text \<open>\<^verbatim>\<open>_execute_rolling_deployment\<close> (lines 424--450).\<close>

definition execute_rolling_deployment :: "world \<Rightarrow> run \<Rightarrow> bool ctl \<times> run" where
  "execute_rolling_deployment w s =
     plain_except
       (seq (stmt (set_progress 20))
          (\<lambda>u. seq (update_services w update_service_rolling)
             (\<lambda>u. seq (stmt (set_progress 90))
                (\<lambda>u. seq (ask w validate_rolling_deployment)
                   (\<lambda>ok. if \<not> ok then return False
                         else seq (stmt (set_progress 100)) (\<lambda>u. return True))))) s)"

text \<open>\<^verbatim>\<open>_execute_immediate_deployment\<close> (lines 452--476).\<close>

definition execute_immediate_deployment :: "world \<Rightarrow> run \<Rightarrow> bool ctl \<times> run" where
  "execute_immediate_deployment w s =
     plain_except
       (seq (stmt (set_progress 20))
          (\<lambda>u. seq (update_services w update_service_immediate)
             (\<lambda>u. seq (stmt (set_progress 90))
                (\<lambda>u. seq (ask w validate_immediate_deployment)
                   (\<lambda>ok. if \<not> ok then return False
                         else seq (stmt (set_progress 100)) (\<lambda>u. return True))))) s)"

section \<open>Rollback and execution\<close>

text \<open>
  \<^verbatim>\<open>_send_rollback_notification\<close> (lines 708--737): with a webhook configured the
  message is posted; an exception of the post is logged and dropped.
\<close>

definition send_rollback_notification :: "world \<Rightarrow> config \<Rightarrow> run \<Rightarrow> run" where
  "send_rollback_notification w cfg s =
     (if slack_webhook cfg \<noteq> [] then snd (call w post_rollback_notification s) else s)"

text \<open>
  \<^verbatim>\<open>_execute_rollback\<close> (lines 550--570): the status is set first, then the reversal
  of the strategy and the notification run inside \<^verbatim>\<open>try\<close>; an exception is logged and
  dropped.
\<close>

definition execute_rollback :: "world \<Rightarrow> config \<Rightarrow> run \<Rightarrow> run" where
  "execute_rollback w cfg s =
     snd (seq (case strategy (plan s) of
                 CANARY \<Rightarrow> rollback_canary_deployment w
               | BLUE_GREEN \<Rightarrow> call w rollback_blue_green_deployment
               | ROLLING_UPDATE \<Rightarrow> call w rollback_standard_deployment
               | IMMEDIATE \<Rightarrow> call w rollback_standard_deployment)
              (\<lambda>u. stmt (send_rollback_notification w cfg))
            (set_status ROLLED_BACK s))"

text \<open>The dispatch on the strategy (lines 272--280).\<close>

definition dispatch :: "world \<Rightarrow> config \<Rightarrow> run \<Rightarrow> (bool ctl \<times> run) option" where
  "dispatch w cfg s =
     (case strategy (plan s) of
        CANARY \<Rightarrow> execute_canary_deployment w cfg s
      | BLUE_GREEN \<Rightarrow> Some (execute_blue_green_deployment w cfg s)
      | ROLLING_UPDATE \<Rightarrow> Some (execute_rolling_deployment w s)
      | IMMEDIATE \<Rightarrow> Some (execute_immediate_deployment w s))"

text \<open>The branches of \<^verbatim>\<open>if success\<close> (lines 282--291).\<close>

definition conclude :: "world \<Rightarrow> config \<Rightarrow> bool \<Rightarrow> run \<Rightarrow> run" where
  "conclude w cfg success s =
     (if success then set_progress 100 (set_status COMPLETED s)
      else
        let s1 = set_status FAILED s in
        if rollback_on_failure (plan s1) then execute_rollback w cfg s1 else s1)"

text \<open>The handler \<^verbatim>\<open>except Exception as e\<close> of \<^verbatim>\<open>execute_deployment\<close> (lines 293--299).\<close>

definition handle_error :: "world \<Rightarrow> config \<Rightarrow> string \<Rightarrow> run \<Rightarrow> run" where
  "handle_error w cfg e s =
     (let s1 = set_error_message e (set_status FAILED s) in
      if rollback_on_failure (plan s1) then execute_rollback w cfg s1 else s1)"

text \<open>
  \<^verbatim>\<open>execute_deployment\<close> from the first assignment to the end of the handler (lines
  264--299), on the plan found in the registry.
\<close>

definition run_deployment :: "world \<Rightarrow> config \<Rightarrow> DeploymentPlan \<Rightarrow> run option" where
  "run_deployment w cfg p =
     (let s1 = set_status IN_PROGRESS (start_run p) in
      case gitops w of
        Some e \<Rightarrow> Some (handle_error w cfg e s1)
      | None \<Rightarrow>
          (case dispatch w cfg s1 of
             None \<Rightarrow> None
           | Some (Return b, s2) \<Rightarrow> Some (conclude w cfg b s2)
           | Some (Normal v, s2) \<Rightarrow> Some (conclude w cfg False s2)
           | Some (Raise e, s2) \<Rightarrow> Some (handle_error w cfg e s2)))"

text \<open>
  \<^verbatim>\<open>execute_deployment\<close> (lines 257--307): an unknown id returns \<^verbatim>\<open>False\<close>; otherwise
  the plan runs, and the \<^verbatim>\<open>finally\<close> block appends it to the history and deletes it
  from the registry. \<open>None\<close> is an execution whose canary loop does not end.
\<close>

definition execute_deployment ::
  "world \<Rightarrow> config \<Rightarrow> string \<Rightarrow> automation \<Rightarrow> (bool \<times> automation) option" where
  "execute_deployment w cfg pid a =
     (case active_deployments a pid of
        None \<Rightarrow> Some (False, a)
      | Some p \<Rightarrow>
          (case run_deployment w cfg p of
             None \<Rightarrow> None
           | Some s \<Rightarrow>
               Some (status (plan s) = COMPLETED,
                     a\<lparr>deployment_history := deployment_history a @ [plan s],
                       active_deployments := (active_deployments a)(pid := None)\<rparr>)))"

section \<open>Concrete inputs\<close>

text \<open>
  The flags as loaded, with the rollout percentage of \<^verbatim>\<open>enhanced_video_processing\<close>
  set through \<^verbatim>\<open>update_feature_flag\<close>.
\<close>

definition video_flags :: "int \<Rightarrow> string \<rightharpoonup> FeatureFlag" where
  "video_flags p =
     update_feature_flag load_feature_flags ''enhanced_video_processing''
       \<lparr>kw_enabled = None, kw_rollout_percentage = Some p, kw_target_segments = None,
        kw_environments = None\<rparr>"

text \<open>A freshly constructed automation object, and the request of \<^verbatim>\<open>main()\<close>.\<close>

definition empty_automation :: automation where
  "empty_automation =
     \<lparr>active_deployments = Map.empty, deployment_history = [],
      feature_flags = load_feature_flags\<rparr>"

definition plan_kwargs_for :: "string \<Rightarrow> string list \<Rightarrow> plan_kwargs" where
  "plan_kwargs_for strat svcs =
     \<lparr>kw_name = Some ''Video Processor v2.1'', kw_strategy = Some strat,
      kw_source_image = Some ''pitchey/video-processor:v2.1.0'',
      kw_target_environment = Some ''production'', kw_services = Some svcs,
      kw_rollback_on_failure = Some True, kw_validation_checks = None,
      kw_timeout_seconds = None, kw_created_by = None\<rparr>"

text \<open>The plan \<^verbatim>\<open>main()\<close> creates, for a given list of services, and a registry that
  holds just one plan.\<close>

definition canary_plan :: "string list \<Rightarrow> DeploymentPlan" where
  "canary_plan svcs =
     new_plan 1700000000 0 (plan_kwargs_for ''canary'' svcs) CANARY
       ''pitchey/video-processor:v2.1.0'' PRODUCTION"

definition registry_with :: "DeploymentPlan \<Rightarrow> automation" where
  "registry_with p = empty_automation\<lparr>active_deployments := [plan_id p \<mapsto> p]\<rparr>"

text \<open>
  Worlds. \<open>healthy\<close> answers both queries with one sample below its threshold. In
  \<open>calm_world\<close> every action returns and every validation is healthy; in
  \<open>error_spike_world\<close> the second validation (index 1) reads an error rate of 8 percent;
  in \<open>shipped_world\<close> every action raises, as the undefined helpers of the file do.
\<close>

definition healthy :: "metric_query \<Rightarrow> prom_reply" where
  "healthy q = Body ''success'' [Finite 1]"

definition calm_world :: world where
  "calm_world = \<lparr>cluster = (\<lambda>n a. Returns True), prometheus = (\<lambda>k. healthy), gitops = None\<rparr>"

definition error_spike_world :: world where
  "error_spike_world =
     \<lparr>cluster = (\<lambda>n a. Returns True),
      prometheus = (\<lambda>k q. if k = 1 \<and> q = error_rate_query then Body ''success'' [Finite 8]
                           else healthy q),
      gitops = None\<rparr>"

definition shipped_world :: world where
  "shipped_world =
     \<lparr>cluster = (\<lambda>n a. Raises ''AttributeError''), prometheus = (\<lambda>k. healthy),
      gitops = None\<rparr>"

section \<open>Predicates of the statements\<close>

text \<open>
  \<open>returns_for w svcs\<close>: the actions of a run over the services \<open>svcs\<close> all return, because
  there is no service to act on or because every action of the world returns.
\<close>

definition returns_for :: "world \<Rightarrow> string list \<Rightarrow> bool" where
  "returns_for w svcs = (svcs = [] \<or> (\<forall>n a. \<exists>b. cluster w n a = Returns b))"

text \<open>
  \<open>same_but_progress p q\<close>: the plans \<open>p\<close> and \<open>q\<close> agree on every field except, possibly,
  \<^verbatim>\<open>progress_percentage\<close>. \<open>only_progress s s'\<close>: from state \<open>s\<close> to state \<open>s'\<close> the plan
  was assigned to in that field alone, and the trace grew by such plans.
\<close>

definition same_but_progress :: "DeploymentPlan \<Rightarrow> DeploymentPlan \<Rightarrow> bool" where
  "same_but_progress p q = (q\<lparr>progress_percentage := progress_percentage p\<rparr> = p)"

definition only_progress :: "run \<Rightarrow> run \<Rightarrow> bool" where
  "only_progress s s' =
     (same_but_progress (plan s) (plan s')
      \<and> (\<exists>new. trace s' = trace s @ new \<and> list_all (same_but_progress (plan s)) new))"

text \<open>
  Three properties of a block of statements: it assigns to the progress only, it
  assigns to no field of the plan, it never executes \<^verbatim>\<open>return\<close>.
\<close>

definition writes_progress :: "(run \<Rightarrow> 'a ctl \<times> run) \<Rightarrow> bool" where
  "writes_progress m = (\<forall>s. only_progress s (snd (m s)))"

definition keeps_plan :: "(run \<Rightarrow> 'a ctl \<times> run) \<Rightarrow> bool" where
  "keeps_plan m = (\<forall>s. plan (snd (m s)) = plan s \<and> trace (snd (m s)) = trace s)"

definition no_return :: "(run \<Rightarrow> 'a ctl \<times> run) \<Rightarrow> bool" where
  "no_return m = (\<forall>s b. fst (m s) \<noteq> Return b)"

text \<open>
  \<open>ramp_chain inc t ts\<close>: starting from the traffic \<open>t\<close>, each element of \<open>ts\<close> is the one
  before it plus the increment, capped at 100.
\<close>

fun ramp_chain :: "int \<Rightarrow> int \<Rightarrow> int list \<Rightarrow> bool" where
  "ramp_chain inc t [] = True"
| "ramp_chain inc t (x # xs) = (x = min 100 (t + inc) \<and> ramp_chain inc x xs)"


text \<open>\<open>ends_at_100 m\<close>: whenever the block \<open>m\<close> returns \<^verbatim>\<open>True\<close>, the progress is 100.\<close>

definition ends_at_100 :: "(run \<Rightarrow> bool ctl \<times> run) \<Rightarrow> bool" where
  "ends_at_100 m = (\<forall>s s'. m s = (Return True, s') \<longrightarrow> progress_percentage (plan s') = 100)"

text \<open>
  \<open>settled tr\<close>, for the successive values \<open>tr\<close> of a plan: once the status is
  \<^verbatim>\<open>COMPLETED\<close> or \<^verbatim>\<open>ROLLED_BACK\<close> the plan never changes again; once it is \<^verbatim>\<open>FAILED\<close>
  only the status, to \<^verbatim>\<open>ROLLED_BACK\<close>, and the error message change.
\<close>

fun settled :: "DeploymentPlan list \<Rightarrow> bool" where
  "settled [] = True"
| "settled (p # ps) =
     ((status p = COMPLETED \<or> status p = ROLLED_BACK \<longrightarrow> list_all (\<lambda>q. q = p) ps)
      \<and> (status p = FAILED \<longrightarrow>
           list_all (\<lambda>q. (status q = FAILED \<or> status q = ROLLED_BACK)
                         \<and> q\<lparr>status := FAILED, error_message := error_message p\<rparr> = p) ps)
      \<and> settled ps)"


section \<open>Properties of the feature flags\<close>

lemma video_flags_eq:
  "video_flags p = load_feature_flags(''enhanced_video_processing'' \<mapsto>
      \<lparr>flag_name = ''enhanced_video_processing'', enabled = False, rollout_percentage = p,
       target_segments = [''beta_users''], environments = [''staging''], conditions = []\<rparr>)"
  by (simp add: video_flags_def update_feature_flag_def load_feature_flags_def)

lemma is_feature_enabled_identified:
  assumes "flags n = Some f" and "u \<noteq> []"
  shows "is_feature_enabled h d flags n (Some u) seg env =
           (\<not> given_not_in env (environments f)
            \<and> \<not> (given_not_in seg (target_segments f) \<and> ''all'' \<notin> set (target_segments f))
            \<and> (if rollout_percentage f < 100 then user_hash h u < rollout_percentage f
                else enabled f))"
  using assms by (simp add: is_feature_enabled_def)

text \<open>
  C3, as the code has it. For a user with a non-empty id and fixed segment and
  environment arguments, a flag that enables the user at rollout percentage \<open>p\<close>
  enables the user at every larger percentage \<open>p'\<close> below 100, all other fields of the
  flag unchanged. From 100 on the answer is the flag's \<^verbatim>\<open>enabled\<close> field, so the user
  stays enabled there exactly when that field is true.
\<close>

theorem rollout_monotone:
  assumes "flags n = Some f" and "u \<noteq> []" and "p < p'" and "p' < 100 \<or> enabled f"
    and "is_feature_enabled h d (flags(n \<mapsto> f\<lparr>rollout_percentage := p\<rparr>)) n (Some u) seg env"
  shows "is_feature_enabled h d' (flags(n \<mapsto> f\<lparr>rollout_percentage := p'\<rparr>)) n (Some u) seg env"
  using assms by (auto simp: is_feature_enabled_identified split: if_splits)

theorem rollout_monotone_witness:
  "is_feature_enabled (\<lambda>u. 7) 0 (video_flags 50) ''enhanced_video_processing''
     (Some ''u1'') (Some ''beta_users'') (Some ''staging'')
   \<and> is_feature_enabled (\<lambda>u. 7) 0 (video_flags 99) ''enhanced_video_processing''
     (Some ''u1'') (Some ''beta_users'') (Some ''staging'')"
  using rollout_monotone
          [where flags = load_feature_flags and n = "''enhanced_video_processing''"
             and f = "\<lparr>flag_name = ''enhanced_video_processing'', enabled = False,
                       rollout_percentage = 0, target_segments = [''beta_users''],
                       environments = [''staging''], conditions = []\<rparr>"
             and u = "''u1''" and p = 50 and p' = 99 and h = "\<lambda>u. 7" and d = 0 and d' = 0
             and seg = "Some ''beta_users''" and env = "Some ''staging''"]
  by (simp add: video_flags_eq load_feature_flags_def is_feature_enabled_def given_not_in_def
        user_hash_def)

text \<open>
  C3 as stated fails at 100: the flag \<^verbatim>\<open>enhanced_video_processing\<close> has
  \<^verbatim>\<open>enabled = False\<close>; a user in bucket 7 is enabled at 50 percent and disabled at 100.
\<close>

theorem rollout_not_monotone_at_100:
  "is_feature_enabled (\<lambda>u. 7) 0 (video_flags 50) ''enhanced_video_processing''
     (Some ''u1'') (Some ''beta_users'') (Some ''staging'')
   \<and> \<not> is_feature_enabled (\<lambda>u. 7) 0 (video_flags 100) ''enhanced_video_processing''
     (Some ''u1'') (Some ''beta_users'') (Some ''staging'')"
  by (simp add: video_flags_eq is_feature_enabled_def given_not_in_def user_hash_def)

text \<open>
  C8, as the code has it. For a user id that is given and not empty, the answer of
  \<^verbatim>\<open>is_feature_enabled\<close> does not depend on the random draw: two calls with the same
  arguments, the same flags and the same process hash agree.
\<close>

theorem identified_user_deterministic:
  "u \<noteq> [] \<Longrightarrow>
   is_feature_enabled h d flags n (Some u) seg env
     = is_feature_enabled h d' flags n (Some u) seg env"
  by (cases "flags n") (simp_all add: is_feature_enabled_def)

theorem identified_user_deterministic_witness:
  "''u1'' \<noteq> []
   \<and> is_feature_enabled (\<lambda>u. 30) 0 load_feature_flags ''ai_inference_v2'' (Some ''u1'') None None
       = is_feature_enabled (\<lambda>u. 30) 99 load_feature_flags ''ai_inference_v2'' (Some ''u1'')
           None None"
  using identified_user_deterministic
          [of "''u1''" "\<lambda>u. 30" 0 load_feature_flags "''ai_inference_v2''" None None 99]
  by simp

text \<open>
  C8 as stated fails for the empty string, a user id that is not null: \<^verbatim>\<open>if user_id:\<close>
  is false for it, the random path is taken, and the draws 0 and 99 give different
  answers for a flag at 25 percent.
\<close>

theorem empty_user_id_not_deterministic:
  "is_feature_enabled (\<lambda>u. 0) 0 load_feature_flags ''ai_inference_v2'' (Some []) None None
   \<and> \<not> is_feature_enabled (\<lambda>u. 0) 99 load_feature_flags ''ai_inference_v2'' (Some []) None None"
  by (simp add: is_feature_enabled_def load_feature_flags_def given_not_in_def)

text \<open>
  C9, as the code has it. The bucket of an identified user is \<^verbatim>\<open>hash(user_id) % 100\<close>,
  with no salt: below 100 percent the answer is \<open>user_hash h u < rollout_percentage\<close>
  whatever the flag's name, so two flags with the same percentage give every user the
  same answer; and the answer is the same in every call (it does not read the draw).
\<close>

theorem bucket_ignores_flag_name:
  assumes "flags n = Some f" and "flags m = Some g" and "u \<noteq> []"
    and "rollout_percentage f < 100" and "rollout_percentage g = rollout_percentage f"
  shows "is_feature_enabled h d flags n (Some u) None None = (user_hash h u < rollout_percentage f)
         \<and> is_feature_enabled h d' flags m (Some u) None None
             = is_feature_enabled h d flags n (Some u) None None"
  using assms by (simp add: is_feature_enabled_identified given_not_in_def)

theorem bucket_ignores_flag_name_witness:
  "is_feature_enabled (\<lambda>u. 1234567) 0 (video_flags 25) ''ai_inference_v2'' (Some ''u1'')
     None None
     = (user_hash (\<lambda>u. 1234567) ''u1'' < 25)
   \<and> is_feature_enabled (\<lambda>u. 1234567) 5 (video_flags 25) ''enhanced_video_processing''
       (Some ''u1'') None None
     = is_feature_enabled (\<lambda>u. 1234567) 0 (video_flags 25) ''ai_inference_v2'' (Some ''u1'')
         None None"
  using bucket_ignores_flag_name [of "video_flags 25" "''ai_inference_v2''"
      "\<lparr>flag_name = ''ai_inference_v2'', enabled = True, rollout_percentage = 25,
        target_segments = [''premium_users''], environments = [''staging'', ''production''],
        conditions = [(''user_tier'', ''premium'')]\<rparr>" "''enhanced_video_processing''"
      "\<lparr>flag_name = ''enhanced_video_processing'', enabled = False, rollout_percentage = 25,
        target_segments = [''beta_users''], environments = [''staging''], conditions = []\<rparr>"
      "''u1''" "\<lambda>u. 1234567" 0 5]
  by (simp add: video_flags_eq load_feature_flags_def)

text \<open>
  C9 as stated fails: with \<^verbatim>\<open>enhanced_video_processing\<close> and \<^verbatim>\<open>ai_inference_v2\<close> both at
  25 percent, no hash function and no non-empty user id tell the two flags apart.
\<close>

theorem flags_share_every_bucket:
  "\<not> (\<exists>h c u.
        is_feature_enabled h 0 (video_flags 25) ''enhanced_video_processing'' (Some (c # u))
          None None
        \<noteq> is_feature_enabled h 0 (video_flags 25) ''ai_inference_v2'' (Some (c # u)) None None)"
  by (simp add: video_flags_eq load_feature_flags_def is_feature_enabled_def given_not_in_def)

text \<open>
  C10. \<^verbatim>\<open>update_feature_flag\<close> leaves every other flag as it was; for an unknown name
  it returns with the whole map unchanged (the model has no exception to raise: the
  function has no failing statement); for a known name the flag keeps its name and
  its conditions, and each of the four other fields is the keyword's value when the
  keyword was passed and the old value otherwise.
\<close>

theorem update_feature_flag_frame:
  "(\<forall>n. n \<noteq> feature_name \<longrightarrow> update_feature_flag flags feature_name kw n = flags n)
   \<and> (flags feature_name = None \<longrightarrow> update_feature_flag flags feature_name kw = flags)
   \<and> (\<forall>f. flags feature_name = Some f \<longrightarrow>
         (\<exists>f'. update_feature_flag flags feature_name kw feature_name = Some f'
               \<and> flag_name f' = flag_name f \<and> conditions f' = conditions f
               \<and> enabled f' = get_or (kw_enabled kw) (enabled f)
               \<and> rollout_percentage f' = get_or (kw_rollout_percentage kw) (rollout_percentage f)
               \<and> target_segments f' = get_or (kw_target_segments kw) (target_segments f)
               \<and> environments f' = get_or (kw_environments kw) (environments f)))"
  by (cases "flags feature_name")
     (auto simp: update_feature_flag_def get_or_def Let_def split: option.splits)

theorem update_feature_flag_frame_witness:
  "video_flags 50 ''ai_inference_v2'' = load_feature_flags ''ai_inference_v2''
   \<and> update_feature_flag load_feature_flags ''no_such_flag''
        \<lparr>kw_enabled = Some True, kw_rollout_percentage = Some 50, kw_target_segments = None,
         kw_environments = None\<rparr> = load_feature_flags
   \<and> (\<exists>f'. video_flags 50 ''enhanced_video_processing'' = Some f'
          \<and> flag_name f' = ''enhanced_video_processing'' \<and> conditions f' = []
          \<and> enabled f' = False \<and> rollout_percentage f' = 50
          \<and> target_segments f' = [''beta_users''] \<and> environments f' = [''staging''])"
  using update_feature_flag_frame [of "''enhanced_video_processing''" load_feature_flags
      "\<lparr>kw_enabled = None, kw_rollout_percentage = Some 50, kw_target_segments = None,
        kw_environments = None\<rparr>"]
    update_feature_flag_frame [of "''no_such_flag''" load_feature_flags
      "\<lparr>kw_enabled = Some True, kw_rollout_percentage = Some 50, kw_target_segments = None,
        kw_environments = None\<rparr>"]
  by (simp add: video_flags_def load_feature_flags_def get_or_def)

section \<open>Properties of plan creation\<close>

lemma str_nat_1700000000: "str_nat 1700000000 = ''1700000000''"
  by (simp add: str_nat.simps)

lemma create_deployment_plan_ok:
  assumes "strategy_of_value (get_or (kw_strategy kw) ''rolling_update'') = Some strat"
    and "kw_source_image kw = Some img" and "kw_target_environment kw = Some e"
    and "environment_of_value e = Some env"
  shows "create_deployment_plan now utcnow kw a =
           (Inr (plan_id (new_plan now utcnow kw strat img env)),
            a\<lparr>active_deployments := (active_deployments a)
                 (plan_id (new_plan now utcnow kw strat img env)
                    \<mapsto> new_plan now utcnow kw strat img env)\<rparr>)"
  using assms by (simp add: create_deployment_plan_def Let_def)

text \<open>
  C7, as the code has it. \<^verbatim>\<open>create_deployment_plan\<close> raises \<^verbatim>\<open>ValueError\<close> when the
  strategy or the target environment is not a value of its enum, and \<^verbatim>\<open>KeyError\<close> when
  the image or the environment is not passed; in each of these cases no plan id is
  returned and the object is unchanged. In every other case, an empty or absent
  service list included, it returns the id of a plan it has stored in the registry
  under that id, with status \<^verbatim>\<open>PENDING\<close>.
\<close>

theorem create_deployment_plan_checks:
  "(strategy_of_value (get_or (kw_strategy kw) ''rolling_update'') = None \<longrightarrow>
      create_deployment_plan now utcnow kw a
        = (Inl (ValueError (get_or (kw_strategy kw) ''rolling_update'')), a))
   \<and> (\<forall>strat. strategy_of_value (get_or (kw_strategy kw) ''rolling_update'') = Some strat \<longrightarrow>
        (kw_source_image kw = None \<longrightarrow>
           create_deployment_plan now utcnow kw a = (Inl (KeyError ''source_image''), a))
        \<and> (\<forall>img. kw_source_image kw = Some img \<longrightarrow>
             (kw_target_environment kw = None \<longrightarrow>
                create_deployment_plan now utcnow kw a
                  = (Inl (KeyError ''target_environment''), a))
             \<and> (\<forall>e. kw_target_environment kw = Some e \<longrightarrow>
                  (environment_of_value e = None \<longrightarrow>
                     create_deployment_plan now utcnow kw a = (Inl (ValueError e), a))
                  \<and> (\<forall>env. environment_of_value e = Some env \<longrightarrow>
                       (\<exists>p. create_deployment_plan now utcnow kw a
                              = (Inr (plan_id p),
                                 a\<lparr>active_deployments :=
                                     (active_deployments a)(plan_id p \<mapsto> p)\<rparr>)
                            \<and> plan_id p = ''deploy_'' @ str_nat now @ ''_''
                                            @ get_or (kw_strategy kw) ''rolling''
                            \<and> status p = PENDING \<and> progress_percentage p = 0
                            \<and> error_message p = None \<and> strategy p = strat
                            \<and> target_environment p = env \<and> source_image p = img
                            \<and> services p = get_or (kw_services kw) [])))))"
proof (intro conjI allI impI)
  fix strat img e env
  assume h: "strategy_of_value (get_or (kw_strategy kw) ''rolling_update'') = Some strat"
    "kw_source_image kw = Some img" "kw_target_environment kw = Some e"
    "environment_of_value e = Some env"
  show "\<exists>p. create_deployment_plan now utcnow kw a
              = (Inr (plan_id p),
                 a\<lparr>active_deployments := (active_deployments a)(plan_id p \<mapsto> p)\<rparr>)
            \<and> plan_id p = ''deploy_'' @ str_nat now @ ''_'' @ get_or (kw_strategy kw) ''rolling''
            \<and> status p = PENDING \<and> progress_percentage p = 0
            \<and> error_message p = None \<and> strategy p = strat
            \<and> target_environment p = env \<and> source_image p = img
            \<and> services p = get_or (kw_services kw) []"
    by (rule exI [of _ "new_plan now utcnow kw strat img env"])
       (simp add: create_deployment_plan_ok [OF h], simp add: new_plan_def Let_def)
qed (simp_all add: create_deployment_plan_def Let_def)

theorem create_deployment_plan_checks_witness:
  "create_deployment_plan 1700000000 0 (plan_kwargs_for ''quantum_leap'' [''api''])
       empty_automation
     = (Inl (ValueError ''quantum_leap''), empty_automation)
   \<and> (\<exists>p. create_deployment_plan 1700000000 0 (plan_kwargs_for ''canary'' [''api''])
              empty_automation
            = (Inr (plan_id p),
               empty_automation\<lparr>active_deployments :=
                 (active_deployments empty_automation)(plan_id p \<mapsto> p)\<rparr>)
          \<and> plan_id p = ''deploy_1700000000_canary'' \<and> status p = PENDING
          \<and> services p = [''api''])"
  using create_deployment_plan_checks
          [where kw = "plan_kwargs_for ''quantum_leap'' [''api'']" and now = 1700000000
             and utcnow = 0 and a = empty_automation]
        create_deployment_plan_checks
          [where kw = "plan_kwargs_for ''canary'' [''api'']" and now = 1700000000
             and utcnow = 0 and a = empty_automation]
  by (simp add: plan_kwargs_for_def get_or_def strategy_of_value_def environment_of_value_def
        str_nat_1700000000) blast

text \<open>
  C7 as stated fails for an empty service list: the request is accepted, a plan id is
  returned and the registry holds the new plan, whose list of services is empty.
\<close>

theorem empty_service_list_accepted:
  "create_deployment_plan 1700000000 0 (plan_kwargs_for ''canary'' []) empty_automation
     = (Inr ''deploy_1700000000_canary'',
        empty_automation\<lparr>active_deployments :=
          [''deploy_1700000000_canary'' \<mapsto>
             new_plan 1700000000 0 (plan_kwargs_for ''canary'' []) CANARY
               ''pitchey/video-processor:v2.1.0'' PRODUCTION]\<rparr>)
   \<and> services (new_plan 1700000000 0 (plan_kwargs_for ''canary'' []) CANARY
                 ''pitchey/video-processor:v2.1.0'' PRODUCTION) = []"
  by (simp add: create_deployment_plan_def Let_def new_plan_def plan_kwargs_for_def get_or_def
        strategy_of_value_def environment_of_value_def str_nat_1700000000 empty_automation_def)

section \<open>Properties of the metrics validation\<close>

text \<open>
  C1, as the code has it. The validation returns \<^verbatim>\<open>False\<close> when the fetch of either
  reply raises (an error or a time-out). A reply that arrives is compared with its
  threshold only when its status is \<^verbatim>\<open>success\<close> and it holds a sample; a reply with
  another status or with no sample is skipped, so the validation returns \<^verbatim>\<open>True\<close>
  unless a reply that is compared lies above its threshold.
\<close>

theorem validation_fails_closed_on_exceptions_only:
  "(prom error_rate_query = Unavailable \<longrightarrow> \<not> validate_canary_metrics cfg prom)
   \<and> (prom response_time_query = Unavailable \<longrightarrow> \<not> validate_canary_metrics cfg prom)
   \<and> (prom error_rate_query = Body st rs \<and> prom response_time_query = Body st' rs' \<longrightarrow>
        validate_canary_metrics cfg prom =
          (\<not> (st = ''success'' \<and> rs \<noteq> [] \<and> float_gt (hd rs) (error_rate_threshold cfg))
           \<and> \<not> (st' = ''success'' \<and> rs' \<noteq> []
                \<and> float_gt (hd rs') (response_time_threshold cfg))))"
  by (cases "prom error_rate_query"; cases "prom response_time_query")
     (auto simp: validate_canary_metrics_def check_reply_def split: ctl.splits)

theorem validation_fails_closed_witness:
  "\<not> validate_canary_metrics default_config (\<lambda>q. Unavailable)
   \<and> \<not> validate_canary_metrics default_config
         (\<lambda>q. case q of error_rate_query \<Rightarrow> Body ''success'' [Finite 1]
                | response_time_query \<Rightarrow> Unavailable)
   \<and> \<not> validate_canary_metrics default_config
         (\<lambda>q. case q of error_rate_query \<Rightarrow> Body ''success'' [Finite 8]
                | response_time_query \<Rightarrow> Body ''success'' [Finite 1])
   \<and> validate_canary_metrics default_config
         (\<lambda>q. case q of error_rate_query \<Rightarrow> Body ''success'' [Finite 2]
                | response_time_query \<Rightarrow> Body ''error'' [])"
  using validation_fails_closed_on_exceptions_only
          [where prom = "\<lambda>q. Unavailable" and cfg = default_config]
        validation_fails_closed_on_exceptions_only
          [where prom = "\<lambda>q. case q of error_rate_query \<Rightarrow> Body ''success'' [Finite 1]
                               | response_time_query \<Rightarrow> Unavailable"
             and cfg = default_config]
        validation_fails_closed_on_exceptions_only
          [where prom = "\<lambda>q. case q of error_rate_query \<Rightarrow> Body ''success'' [Finite 8]
                               | response_time_query \<Rightarrow> Body ''success'' [Finite 1]"
             and st = "''success''" and rs = "[Finite 8]" and st' = "''success''"
             and rs' = "[Finite 1]" and cfg = default_config]
        validation_fails_closed_on_exceptions_only
          [where prom = "\<lambda>q. case q of error_rate_query \<Rightarrow> Body ''success'' [Finite 2]
                               | response_time_query \<Rightarrow> Body ''error'' []"
             and st = "''success''" and rs = "[Finite 2]" and st' = "''error''"
             and rs' = "[]" and cfg = default_config]
  by (simp add: default_config_def)

text \<open>
  C1 as stated fails when the provider answers both queries with no data points: the
  validation returns \<^verbatim>\<open>True\<close>.
\<close>

theorem validation_passes_without_data:
  "validate_canary_metrics default_config (\<lambda>q. Body ''success'' [])"
  by (simp add: validate_canary_metrics_def check_reply_def)

section \<open>Properties of the floating-point arithmetic\<close>

text \<open>
  The exponent brackets its argument, rounding moves a number by at most half a unit
  in the last place, and an integer below \<open>2 ^ 53\<close> in absolute value is a float.
\<close>

lemmas float_defs = binary64_def exponent_def pow2_def round_half_even_def Let_def
  bit_length.simps float_of_int_def float_add_def float_mul_def true_div_def

lemma bit_length_bounds:
  "0 < n \<Longrightarrow> 2 ^ (bit_length n - 1) \<le> n \<and> n < 2 ^ bit_length n"
proof (induction n rule: bit_length.induct)
  case (1 n)
  show ?case
  proof (cases "n div 2 = 0")
    case True
    then have "n = 1" using 1(2) by auto
    then show ?thesis by (simp add: bit_length.simps)
  next
    case False
    then have p: "0 < n div 2" by simp
    from 1(1) [OF _ p] 1(2)
    have ih: "2 ^ (bit_length (n div 2) - 1) \<le> n div 2" "n div 2 < 2 ^ bit_length (n div 2)"
      by simp_all
    have b: "bit_length n = Suc (bit_length (n div 2))"
      using 1(2) by (subst bit_length.simps) simp
    have pos: "0 < bit_length (n div 2)"
      using p by (subst bit_length.simps) simp
    have "2 * 2 ^ (bit_length (n div 2) - 1) \<le> n" using ih(1) by linarith
    moreover have "2 * 2 ^ (bit_length (n div 2) - 1) = (2::nat) ^ bit_length (n div 2)"
      using pos by (cases "bit_length (n div 2)") simp_all
    moreover have "n < 2 * 2 ^ bit_length (n div 2)" using ih(2) by linarith
    ultimately show ?thesis using b by simp
  qed
qed

lemma pow2_pos: "0 < pow2 e"
  by (simp add: pow2_def)

lemma pow2_add: "pow2 (a + b) = pow2 a * pow2 b"
proof -
  have "pow2 e = 2 powi e" for e
    by (simp add: pow2_def power_int_def inverse_eq_divide power_one_over)
  then show ?thesis by (simp add: power_int_add)
qed

lemma pow2_mono: "a \<le> b \<Longrightarrow> pow2 a \<le> pow2 b"
proof -
  have "pow2 e = 2 powi e" for e
    by (simp add: pow2_def power_int_def inverse_eq_divide power_one_over)
  then show "a \<le> b \<Longrightarrow> pow2 a \<le> pow2 b" by (simp add: power_int_increasing)
qed

lemma pow2_less_cancel: "pow2 a < pow2 b \<Longrightarrow> a < b"
  using pow2_mono [of b a] by (cases "a < b") auto

lemma exponent_bounds:
  assumes "0 < x"
  shows "pow2 (exponent x) \<le> x \<and> x < pow2 (exponent x + 1)"
proof (cases "1 \<le> x")
  case True
  let ?n = "nat \<lfloor>x\<rfloor>"
  have n: "0 < ?n" using True by simp
  from bit_length_bounds [OF n]
  have b: "2 ^ (bit_length ?n - 1) \<le> ?n" "?n < 2 ^ bit_length ?n" by simp_all
  have pos: "0 < bit_length ?n" using n by (subst bit_length.simps) simp
  have e: "exponent x = int (bit_length ?n) - 1" using True by (simp add: exponent_def)
  have 1: "pow2 (exponent x) = 2 ^ (bit_length ?n - 1)"
    using pos by (simp add: e pow2_def nat_diff_distrib)
  have 2: "pow2 (exponent x + 1) = 2 ^ bit_length ?n"
    by (simp add: e pow2_def)
  have l: "2 ^ (bit_length ?n - 1) \<le> x"
  proof -
    have "(2::real) ^ (bit_length ?n - 1) = real (2 ^ (bit_length ?n - 1))" by simp
    also have "\<dots> \<le> real ?n" using b(1) by (rule of_nat_mono)
    also have "\<dots> \<le> x" using True by (simp add: of_nat_nat)
    finally show ?thesis .
  qed
  have "x < real ?n + 1" using True by (simp add: of_nat_nat)
  moreover have "real ?n + 1 \<le> real (2 ^ bit_length ?n)"
    using b(2) by (metis Suc_leI of_nat_Suc of_nat_mono add.commute)
  ultimately have u: "x < 2 ^ bit_length ?n" by simp
  show ?thesis using l u 1 2 by simp
next
  case False
  let ?m = "\<lceil>1 / x\<rceil>"
  let ?n = "nat (?m - 1)"
  have gt: "1 < 1 / x" using False assms by simp
  then have m2: "2 \<le> ?m" by (simp add: le_ceiling_iff) 
  then have n: "0 < ?n" by simp
  from bit_length_bounds [OF n]
  have b: "2 ^ (bit_length ?n - 1) \<le> ?n" "?n < 2 ^ bit_length ?n" by simp_all
  have pos: "0 < bit_length ?n" using n by (subst bit_length.simps) simp
  have e: "exponent x = - int (bit_length ?n)" using False by (simp add: exponent_def)
  have 1: "pow2 (exponent x) = 1 / 2 ^ bit_length ?n"
    using pos by (simp add: e pow2_def)
  have 2: "pow2 (exponent x + 1) = 1 / 2 ^ (bit_length ?n - 1)"
  proof (cases "bit_length ?n = 1")
    case True then show ?thesis by (simp add: e pow2_def)
  next
    case False
    then have "1 < bit_length ?n" using pos by simp
    then have "nat (int (bit_length ?n) - 1) = bit_length ?n - 1"
      "\<not> (1::int) \<le> 1 - int (bit_length ?n) + 0" by auto
    then show ?thesis using \<open>1 < bit_length ?n\<close> by (simp add: e pow2_def)
  qed
  have "0 \<le> ?m - 1" using m2 by linarith
  then have "real ?n = real_of_int (?m - 1)" by (rule of_nat_nat)
  also have "\<dots> = of_int ?m - 1" by (simp only: of_int_diff of_int_1)
  finally have rn: "real ?n = of_int ?m - 1" .
  have c1: "1 / x \<le> of_int ?m" by (rule le_of_int_ceiling)
  have c2: "of_int ?m - 1 < 1 / x" using ceiling_correct [of "1 / x"] by linarith
  have p1: "real ?n + 1 \<le> real (2 ^ bit_length ?n)"
    using b(2) by (metis Suc_leI of_nat_Suc of_nat_mono add.commute)
  have p2: "real (2 ^ (bit_length ?n - 1)) \<le> real ?n" using b(1) by (rule of_nat_mono)
  have q: "real (2 ^ k) = 2 ^ k" for k by simp
  have "1 / x \<le> 2 ^ bit_length ?n" using c1 rn p1 q [of "bit_length ?n"] by linarith
  then have l: "1 / 2 ^ bit_length ?n \<le> x"
    using assms by (simp add: field_simps)
  have "2 ^ (bit_length ?n - 1) < 1 / x" using c2 rn p2 q [of "bit_length ?n - 1"] by linarith
  then have u: "x < 1 / 2 ^ (bit_length ?n - 1)"
    using assms by (simp add: field_simps)
  show ?thesis using l u 1 2 by simp
qed

lemma exponent_less: "0 < x \<Longrightarrow> x < pow2 k \<Longrightarrow> exponent x < k"
  using exponent_bounds [of x] by (intro pow2_less_cancel) simp

lemma exponent_ge: "0 < x \<Longrightarrow> pow2 k \<le> x \<Longrightarrow> k \<le> exponent x"
  using exponent_bounds [of x] pow2_less_cancel [of k "exponent x + 1"] by simp

lemma exponent_eq: "pow2 k \<le> x \<Longrightarrow> x < pow2 (k + 1) \<Longrightarrow> exponent x = k"
proof -
  assume a: "pow2 k \<le> x" "x < pow2 (k + 1)"
  then have "0 < x" using pow2_pos [of k] by simp
  from exponent_less [OF this a(2)] exponent_ge [OF this a(1)] show ?thesis by simp
qed

lemma round_half_even_error: "\<bar>of_int (round_half_even y) - y\<bar> \<le> 1 / 2"
  unfolding round_half_even_def Let_def by (auto simp: abs_if) linarith+

lemma round_half_even_of_int: "round_half_even (of_int m) = m"
  by (simp add: round_half_even_def)

lemma binary64_error:
  "\<bar>binary64 x - x\<bar> \<le> pow2 (max (exponent \<bar>x\<bar>) (- 1022) - 53)"
proof (cases "x = 0")
  case True
  then show ?thesis using pow2_pos [of "max (exponent \<bar>x\<bar>) (- 1022) - 53"]
    by (simp add: binary64_def)
next
  case False
  let ?e = "max (exponent \<bar>x\<bar>) (- 1022)"
  let ?u = "pow2 (?e - 52)"
  have u: "0 < ?u" by (rule pow2_pos)
  have h: "pow2 (?e - 53) = ?u / 2"
    using pow2_add [of "?e - 52" "- 1"] by (simp add: pow2_def)
  have "binary64 x - x = (of_int (round_half_even (x / ?u)) - x / ?u) * ?u"
    using False u by (simp add: binary64_def Let_def field_simps)
  then have "\<bar>binary64 x - x\<bar> = \<bar>of_int (round_half_even (x / ?u)) - x / ?u\<bar> * ?u"
    using u by (simp add: abs_mult)
  also have "\<dots> \<le> 1 / 2 * ?u"
    using round_half_even_error [of "x / ?u"] u by (intro mult_right_mono) simp_all
  finally show ?thesis using h by simp
qed

lemma binary64_error_below:
  assumes "\<bar>x\<bar> < pow2 k" and "- 1021 \<le> k"
  shows "\<bar>binary64 x - x\<bar> \<le> pow2 (k - 54)"
proof (cases "x = 0")
  case True
  then show ?thesis using pow2_pos [of "k - 54"] by (simp add: binary64_def)
next
  case False
  then have "exponent \<bar>x\<bar> < k" using assms(1) by (intro exponent_less) simp_all
  then have "max (exponent \<bar>x\<bar>) (- 1022) - 53 \<le> k - 54" using assms(2) by simp
  from pow2_mono [OF this] binary64_error [of x] show ?thesis by simp
qed

lemma binary64_of_int:
  assumes "\<bar>n\<bar> < 2 ^ 53"
  shows "binary64 (of_int n) = of_int n"
proof (cases "n = 0")
  case True then show ?thesis by (simp add: binary64_def)
next
  case False
  let ?x = "\<bar>real_of_int n\<bar>"
  have x1: "1 \<le> ?x" using False by (simp add: abs_if)
  have "?x < pow2 53" using assms by (simp add: pow2_def)
  then have e53: "exponent ?x < 53" using x1 by (intro exponent_less) simp_all
  have "pow2 0 \<le> ?x" using x1 by (simp add: pow2_def)
  then have e0: "0 \<le> exponent ?x" using x1 by (intro exponent_ge) simp_all
  let ?e = "exponent ?x"
  let ?k = "nat (52 - ?e)"
  have m: "max ?e (- 1022) - 52 = - int ?k" using e0 e53 by simp
  have u: "pow2 (max ?e (- 1022) - 52) = 1 / 2 ^ ?k"
    unfolding m by (cases "?k = 0") (simp_all add: pow2_def)
  have "real_of_int n / (1 / 2 ^ ?k) = of_int (n * 2 ^ ?k)" by simp
  then have "round_half_even (real_of_int n / (1 / 2 ^ ?k)) = n * 2 ^ ?k"
    by (simp only: round_half_even_of_int)
  then show ?thesis using False u by (simp add: binary64_def Let_def)
qed

lemma float_of_int_small: "\<bar>n\<bar> < 2 ^ 53 \<Longrightarrow> float_of_int n = Some (of_int n)"
proof -
  assume a: "\<bar>n\<bar> < 2 ^ 53"
  have "\<bar>real_of_int n\<bar> < 2 ^ 53"
    using a by (metis of_int_abs of_int_less_numeral_power_cancel_iff)
  moreover have "(2::real) ^ 53 < 2 ^ 1024" by simp
  ultimately have "\<bar>real_of_int n\<bar> < 2 ^ 1024" by (rule less_trans)
  then show ?thesis using binary64_of_int [OF a] by (simp add: float_of_int_def)
qed

text \<open>
  The literal \<^verbatim>\<open>0.7\<close>, and the progress of line 366: its values at the percentages
  of the default ramp and at 33, and its distance from \<open>20 + 0.7 * t\<close>.
\<close>

lemma seven_tenths: "binary64 (7 / 10) = 3152519739159347 / 2 ^ 52"
  by (simp add: float_defs)


lemma canary_progress_small:
  "\<bar>t\<bar> < 2 ^ 53 \<Longrightarrow>
   canary_progress t
     = Some (binary64 (20 + binary64 (of_int t * (3152519739159347 / 2 ^ 52))))"
  by (simp only: canary_progress_def float_of_int_small option.case float_add_def float_mul_def
        seven_tenths)

lemma canary_progress_values:
  "canary_progress 30 = Some 41" "canary_progress 50 = Some 55" "canary_progress 70 = Some 69"
  "canary_progress 90 = Some 83" "canary_progress 100 = Some 90"
  "canary_progress 33 = Some (1516446437028659 / 35184372088832)"
  "canary_progress (- 10) = Some 13"
  by (simp_all add: canary_progress_small) (simp_all add: float_defs)

lemma canary_progress_error:
  assumes "0 \<le> t" and "t \<le> 100"
  shows "\<exists>v. canary_progress t = Some v \<and> \<bar>v - (20 + 0.7 * real_of_int t)\<bar> \<le> 21 / 2 ^ 50"
proof -
  let ?a = "3152519739159347 / 2 ^ 52 :: real"
  let ?x = "real_of_int t"
  let ?p = "binary64 (?x * ?a)"
  let ?q = "binary64 (20 + ?p)"
  have x: "0 \<le> ?x" "?x \<le> 100" using assms by simp_all
  have "\<bar>t\<bar> < 2 ^ 53" using assms by simp
  then have c: "canary_progress t = Some ?q" by (rule canary_progress_small)
  have xa: "0 \<le> ?x * ?a" "?x * ?a \<le> 70" using x by simp_all
  then have "\<bar>?x * ?a\<bar> < pow2 7" by (simp add: pow2_def)
  from binary64_error_below [OF this]
  have e1: "\<bar>?p - ?x * ?a\<bar> \<le> 1 / 2 ^ 47" by (simp add: pow2_def)
  then have "\<bar>20 + ?p\<bar> < pow2 7" using xa by (simp add: pow2_def abs_if split: if_splits)
  from binary64_error_below [OF this]
  have e2: "\<bar>?q - (20 + ?p)\<bar> \<le> 1 / 2 ^ 47" by (simp add: pow2_def)
  have "0.7 * ?x - ?x * ?a = ?x * (1 / (5 * 2 ^ 52))" by (simp add: field_simps)
  moreover have "0 \<le> ?x * (1 / (5 * 2 ^ 52))" "?x * (1 / (5 * 2 ^ 52)) \<le> 5 / 2 ^ 50"
    using x by simp_all
  ultimately have e3: "\<bar>0.7 * ?x - ?x * ?a\<bar> \<le> 5 / 2 ^ 50" by simp
  have "\<bar>?q - (20 + 0.7 * ?x)\<bar> \<le> 21 / 2 ^ 50" using e1 e2 e3 by (simp add: abs_if split: if_splits)
  then show ?thesis using c by simp
qed

text \<open>The float of line 366 is finite, so the progress holds a number.\<close>

lemma canary_progress_finite:
  assumes "canary_progress t = Some v"
  shows "\<bar>v\<bar> < 2 ^ 1024"
proof -
  let ?a = "3152519739159347 / 2 ^ 52 :: real"
  from assms obtain x where x: "float_of_int t = Some x"
    and v: "v = binary64 (20 + binary64 (x * ?a))"
    by (auto simp: canary_progress_def float_add_def float_mul_def seven_tenths
          split: option.splits)
  have bx: "\<bar>x\<bar> < 2 ^ 1024"
    using x by (simp add: float_of_int_def Let_def split: if_splits)
  let ?p = "binary64 (x * ?a)"
  have "\<bar>x * ?a\<bar> = \<bar>x\<bar> * ?a" by (simp add: abs_mult)
  also have "\<dots> \<le> \<bar>x\<bar> * (7 / 10)" by (intro mult_left_mono) simp_all
  finally have xa: "\<bar>x * ?a\<bar> \<le> 7 / 10 * 2 ^ 1024" using bx by simp
  then have "\<bar>x * ?a\<bar> < pow2 1024" by (simp add: pow2_def)
  from binary64_error_below [OF this]
  have "\<bar>?p - x * ?a\<bar> \<le> 2 ^ 970" by (simp add: pow2_def)
  then have bp: "\<bar>?p\<bar> \<le> 7 / 10 * 2 ^ 1024 + 2 ^ 970" using xa by linarith
  then have b2: "\<bar>20 + ?p\<bar> \<le> 7 / 10 * 2 ^ 1024 + 2 ^ 970 + 20" by linarith
  then have "\<bar>20 + ?p\<bar> < pow2 1024" by (simp add: pow2_def)
  from binary64_error_below [OF this]
  have "\<bar>v - (20 + ?p)\<bar> \<le> 2 ^ 970" by (simp add: pow2_def v)
  then have "\<bar>v\<bar> \<le> 7 / 10 * 2 ^ 1024 + 2 ^ 970 + 20 + 2 ^ 970" using b2 by linarith
  then show ?thesis by simp
qed

section \<open>Properties of the canary run\<close>

lemmas run_defs = seq_def stmt_def return_def call_def ask_def set_progress_def set_status_def
  set_error_message_def assign_def sleep_def

lemma same_but_progress_refl: "same_but_progress p p"
  by (simp add: same_but_progress_def)

lemma same_but_progress_trans:
  "same_but_progress p q \<Longrightarrow> same_but_progress q r \<Longrightarrow> same_but_progress p r"
  unfolding same_but_progress_def
  by (metis DeploymentPlan.update_convs(13) DeploymentPlan.surjective)

lemma same_but_progress_set: "same_but_progress p (p\<lparr>progress_percentage := v\<rparr>)"
  by (simp add: same_but_progress_def)

lemma only_progress_refl: "only_progress s s"
  by (simp add: only_progress_def same_but_progress_refl)

lemma only_progress_trans:
  assumes "only_progress s t" and "only_progress t u"
  shows "only_progress s u"
proof -
  from assms(1) obtain n1 where 1: "same_but_progress (plan s) (plan t)"
    "trace t = trace s @ n1" "list_all (same_but_progress (plan s)) n1"
    by (auto simp: only_progress_def)
  from assms(2) obtain n2 where 2: "same_but_progress (plan t) (plan u)"
    "trace u = trace t @ n2" "list_all (same_but_progress (plan t)) n2"
    by (auto simp: only_progress_def)
  have "list_all (same_but_progress (plan s)) n2"
    using 2(3) 1(1) by (auto simp: list_all_iff intro: same_but_progress_trans)
  then show ?thesis
    using 1 2 by (auto simp: only_progress_def intro: same_but_progress_trans)
qed

lemma keeps_plan_writes_progress: "keeps_plan m \<Longrightarrow> writes_progress m"
  by (simp add: keeps_plan_def writes_progress_def only_progress_def same_but_progress_refl)

lemma keeps_plan_seq:
  "keeps_plan m \<Longrightarrow> (\<And>v. keeps_plan (k v)) \<Longrightarrow> keeps_plan (seq m k)"
  unfolding keeps_plan_def seq_def
  by (auto split: prod.splits ctl.splits) (metis snd_conv)+

lemma keeps_plan_ask: "keeps_plan (ask w a)"
  by (simp add: keeps_plan_def ask_def split: outcome.splits)

lemma keeps_plan_call: "keeps_plan (call w a)"
  unfolding call_def by (intro keeps_plan_seq keeps_plan_ask) (simp add: keeps_plan_def stmt_def)

lemma keeps_plan_sleep: "keeps_plan (stmt (sleep d))"
  by (simp add: keeps_plan_def stmt_def sleep_def)

lemma keeps_plan_return: "keeps_plan (return b)"
  by (simp add: keeps_plan_def return_def)

lemma keeps_plan_for_services:
  assumes "\<And>x. keeps_plan (body x)"
  shows "keeps_plan (for_services body xs)"
  unfolding keeps_plan_def
proof
  fix s show "plan (snd (for_services body xs s)) = plan s \<and> trace (snd (for_services body xs s)) = trace s"
  proof (induction xs arbitrary: s)
    case Nil then show ?case by simp
  next
    case (Cons x xs)
    obtain r s1 where b: "body x s = (r, s1)" by (cases "body x s")
    have k: "plan s1 = plan s \<and> trace s1 = trace s"
      using assms [of x] b unfolding keeps_plan_def by (metis snd_conv)
    show ?case using b k Cons.IH [of s1] by (cases r) simp_all
  qed
qed

lemma keeps_plan_route: "keeps_plan (route_traffic_to_canary w pct)"
proof -
  have "keeps_plan (seq (for_services (\<lambda>svc. call w (apply_traffic_routing svc pct)) xs)
         (\<lambda>u. stmt (\<lambda>s'. s'\<lparr>routed := routed s' @ [pct]\<rparr>)))" for xs
    by (intro keeps_plan_seq keeps_plan_for_services keeps_plan_call)
       (simp add: keeps_plan_def stmt_def)
  then show ?thesis
    unfolding keeps_plan_def route_traffic_to_canary_def by blast
qed

lemma keeps_plan_deploy: "keeps_plan (deploy_canary_version w)"
  using keeps_plan_for_services [of "\<lambda>svc. call w (apply_canary_manifest svc)", OF keeps_plan_call]
  unfolding keeps_plan_def deploy_canary_version_def by blast

lemma keeps_plan_promote: "keeps_plan (promote_canary_to_stable w)"
proof -
  have "keeps_plan (for_services (\<lambda>svc. seq (call w (apply_stable_manifest svc))
                 (\<lambda>u. call w (remove_canary_deployment svc))) xs)" for xs
    by (intro keeps_plan_for_services keeps_plan_seq keeps_plan_call)
  then show ?thesis unfolding keeps_plan_def promote_canary_to_stable_def by blast
qed

lemma keeps_plan_rollback_canary: "keeps_plan (rollback_canary_deployment w)"
proof -
  have "keeps_plan (\<lambda>s'. for_services (\<lambda>svc. call w (remove_canary_deployment svc))
                    (services (plan s')) s')"
    using keeps_plan_for_services [of "\<lambda>svc. call w (remove_canary_deployment svc)", OF keeps_plan_call]
    unfolding keeps_plan_def by blast
  then show ?thesis
    unfolding rollback_canary_deployment_def by (intro keeps_plan_seq keeps_plan_route)
qed

lemma keeps_planD:
  "keeps_plan m \<Longrightarrow> m s = (r, s') \<Longrightarrow> plan s' = plan s \<and> trace s' = trace s"
  unfolding keeps_plan_def by (metis snd_conv)

lemma route_result:
  assumes "route_traffic_to_canary w pct s = (r, s')"
  shows "plan s' = plan s \<and> trace s' = trace s \<and> validations s' = validations s
         \<and> slept s' = slept s
         \<and> routed s' = (if r = Normal () then routed s @ [pct] else routed s)"
proof -
  have fs: "for_services (\<lambda>svc. call w (apply_traffic_routing svc pct)) xs s0 = (r0, s1) \<Longrightarrow>
        validations s1 = validations s0 \<and> slept s1 = slept s0 \<and> routed s1 = routed s0"
    for xs s0 r0 s1
  proof (induction xs arbitrary: s0)
    case Nil then show ?case by simp
  next
    case (Cons x xs)
    obtain r2 s2 where b: "call w (apply_traffic_routing x pct) s0 = (r2, s2)"
      by (cases "call w (apply_traffic_routing x pct) s0")
    then have k: "validations s2 = validations s0 \<and> slept s2 = slept s0 \<and> routed s2 = routed s0"
      by (auto simp: run_defs split: outcome.splits)
    show ?case using Cons.prems b k Cons.IH [of s2] by (cases r2) auto
  qed
  obtain r0 s1 where f: "for_services (\<lambda>svc. call w (apply_traffic_routing svc pct))
       (services (plan s)) s = (r0, s1)"
    by (cases "for_services (\<lambda>svc. call w (apply_traffic_routing svc pct)) (services (plan s)) s")
  have "validations s' = validations s \<and> slept s' = slept s
         \<and> routed s' = (if r = Normal () then routed s @ [pct] else routed s)"
    using assms f fs [OF f]
    by (cases r0) (auto simp: route_traffic_to_canary_def seq_def stmt_def)
  then show ?thesis using keeps_planD [OF keeps_plan_route assms] by simp
qed

lemma ramp_cycle_result:
  assumes "ramp_cycle w cfg t s = (r, s')"
  shows "validations s' = Suc (validations s)
    \<and> (case r of
          Normal t' \<Rightarrow> validate_canary_metrics cfg (prometheus w (validations s))
                      \<and> t' = min 100 (t + traffic_increment cfg)
                      \<and> routed s' = routed s @ [t']
                      \<and> (\<exists>v. canary_progress t' = Some v
                               \<and> plan s' = (plan s)\<lparr>progress_percentage := v\<rparr>)
                      \<and> trace s' = trace s @ [plan s']
        | Return b \<Rightarrow> \<not> b \<and> \<not> validate_canary_metrics cfg (prometheus w (validations s))
                      \<and> routed s' = routed s \<and> plan s' = plan s \<and> trace s' = trace s
        | Raise e \<Rightarrow> validate_canary_metrics cfg (prometheus w (validations s))
                      \<and> plan s' = plan s \<and> trace s' = trace s
                      \<and> (routed s' = routed s
                           \<or> routed s' = routed s @ [min 100 (t + traffic_increment cfg)]
                              \<and> canary_progress (min 100 (t + traffic_increment cfg)) = None))"
proof (cases "validate_canary_metrics cfg (prometheus w (validations s))")
  case False
  then show ?thesis using assms
    by (auto simp: ramp_cycle_def validate_metrics_def sleep_def)
next
  case True
  let ?s1 = "(sleep (wait_time_between_steps cfg) s)\<lparr>validations := Suc (validations s)\<rparr>"
  let ?t = "min 100 (t + traffic_increment cfg)"
  obtain r2 s2 where rt: "route_traffic_to_canary w ?t ?s1 = (r2, s2)"
    by (cases "route_traffic_to_canary w ?t ?s1")
  note rr = route_result [OF rt]
  show ?thesis
  proof (cases r2)
    case (Normal u)
    then show ?thesis using assms True rt rr
      by (auto simp: ramp_cycle_def validate_metrics_def sleep_def seq_def Let_def
            set_progress_def assign_def split: option.splits)
  next
    case (Return b)
    have False
    proof -
      have "for_services (\<lambda>svc. call w (apply_traffic_routing svc ?t)) xs s0 \<noteq> (Return b, s3)"
        for xs s0 s3
      proof (induction xs arbitrary: s0)
        case Nil then show ?case by simp
      next
        case (Cons x xs)
        then show ?case
          by (auto simp: run_defs split: outcome.splits)
      qed
      then show False using rt Return
        by (auto simp: route_traffic_to_canary_def seq_def stmt_def split: prod.splits ctl.splits)
    qed
    then show ?thesis ..
  next
    case (Raise e)
    then show ?thesis using assms True rt rr
      by (auto simp: ramp_cycle_def validate_metrics_def sleep_def seq_def Let_def)
  qed
qed

lemma canary_ramp_partial:
  assumes "canary_ramp w cfg t s = Some y"
  shows "only_progress s (snd y)
    \<and> validations s \<le> validations (snd y)
    \<and> (\<exists>ts. routed (snd y) = routed s @ ts
            \<and> ramp_chain (traffic_increment cfg) t ts
            \<and> length ts \<le> validations (snd y) - validations s
            \<and> (\<forall>x \<in> set (butlast (t # ts)). x < 100)
            \<and> (\<forall>i < length ts. validate_canary_metrics cfg (prometheus w (validations s + i)))
            \<and> (case fst y of
                  Normal t' \<Rightarrow> t' = last (t # ts) \<and> 100 \<le> t'
                              \<and> length ts = validations (snd y) - validations s
                              \<and> (if ts = [] then snd y = s
                                 else canary_progress t'
                                        = Some (progress_percentage (plan (snd y))))
                | Return b \<Rightarrow> \<not> b \<and> last (t # ts) < 100
                | Raise e \<Rightarrow> last (t # ts) < 100))"
  using assms
proof (induction w cfg t s y rule: canary_ramp.raw_induct [rotated, consumes 1, case_names step])
  case (step f w cfg t s y)
  show ?case
  proof (cases "t < 100")
    case False
    then have "y = (Normal t, s)" using step(2) by simp
    then show ?thesis using False by (simp add: only_progress_refl)
  next
    case True
    obtain r s1 where c: "ramp_cycle w cfg t s = (r, s1)" by (cases "ramp_cycle w cfg t s")
    note rc = ramp_cycle_result [OF c]
    show ?thesis
    proof (cases r)
      case (Normal t1)
      then have rec: "f w cfg t1 s1 = Some y" using step(2) True c by simp
      note ih = step(1) [OF rec]
      from rc Normal obtain v where v: "canary_progress t1 = Some v"
        "plan s1 = (plan s)\<lparr>progress_percentage := v\<rparr>" by auto
      from rc Normal v have f: "t1 = min 100 (t + traffic_increment cfg)"
        "routed s1 = routed s @ [t1]" "validations s1 = Suc (validations s)"
        "canary_progress t1 = Some (progress_percentage (plan s1))"
        "trace s1 = trace s @ [plan s1]"
        "validate_canary_metrics cfg (prometheus w (validations s))" by auto
      have op1: "only_progress s s1"
        using f v by (simp add: only_progress_def same_but_progress_set)
      from ih obtain ts where ts: "routed (snd y) = routed s1 @ ts"
        "ramp_chain (traffic_increment cfg) t1 ts"
        "length ts \<le> validations (snd y) - validations s1"
        and bl: "\<forall>x \<in> set (butlast (t1 # ts)). x < 100"
        and ps: "\<forall>i < length ts. validate_canary_metrics cfg (prometheus w (validations s1 + i))"
        and cs: "(case fst y of
                  Normal t' \<Rightarrow> t' = last (t1 # ts) \<and> 100 \<le> t'
                              \<and> length ts = validations (snd y) - validations s1
                              \<and> (if ts = [] then snd y = s1
                                 else canary_progress t'
                                        = Some (progress_percentage (plan (snd y))))
                | Return b \<Rightarrow> \<not> b \<and> last (t1 # ts) < 100
                | Raise e \<Rightarrow> last (t1 # ts) < 100)" by blast
      have le: "validations s1 \<le> validations (snd y)" using ih by simp
      have a1: "only_progress s (snd y)"
        using op1 ih by (blast intro: only_progress_trans)
      have a2: "validations s \<le> validations (snd y)" using le f(3) by simp
      have a3: "routed (snd y) = routed s @ (t1 # ts)" using ts(1) f(2) by simp
      have a4: "ramp_chain (traffic_increment cfg) t (t1 # ts)" using ts(2) f(1) by simp
      have a5: "length (t1 # ts) \<le> validations (snd y) - validations s"
        using ts(3) le f(3) by simp
      have a6: "(case fst y of
                  Normal t' \<Rightarrow> t' = last (t # t1 # ts) \<and> 100 \<le> t'
                              \<and> length (t1 # ts) = validations (snd y) - validations s
                              \<and> (if t1 # ts = [] then snd y = s
                                 else canary_progress t'
                                        = Some (progress_percentage (plan (snd y))))
                | Return b \<Rightarrow> \<not> b \<and> last (t # t1 # ts) < 100
                | Raise e \<Rightarrow> last (t # t1 # ts) < 100)"
        using cs le f(3) f(4) by (cases "fst y") (auto split: if_splits)
      have a7: "\<forall>x \<in> set (butlast (t # t1 # ts)). x < 100" using bl True by simp
      have a8: "\<forall>i < length (t1 # ts).
                  validate_canary_metrics cfg (prometheus w (validations s + i))"
      proof (intro allI impI)
        fix i assume "i < length (t1 # ts)"
        then show "validate_canary_metrics cfg (prometheus w (validations s + i))"
          using ps f(3) f(6) by (cases i) simp_all
      qed
      show ?thesis
        by (intro conjI exI [of _ "t1 # ts"]) (rule a1 a2 a3 a4 a5 a6 a7 a8)+
    next
      case (Return b)
      then have "y = (Return b, s1)" using step(2) True c by simp
      then show ?thesis using rc Return True
        by (auto simp: only_progress_def same_but_progress_refl)
    next
      case (Raise e)
      then have y: "y = (Raise e, s1)" using step(2) True c by simp
      let ?t = "min 100 (t + traffic_increment cfg)"
      from rc Raise have p: "plan s1 = plan s" "trace s1 = trace s"
        "validations s1 = Suc (validations s)"
        "validate_canary_metrics cfg (prometheus w (validations s))"
        and d: "routed s1 = routed s
                \<or> routed s1 = routed s @ [?t] \<and> canary_progress ?t = None" by auto
      have op: "only_progress s s1"
        using p by (simp add: only_progress_def same_but_progress_refl)
      from d show ?thesis
      proof
        assume "routed s1 = routed s"
        then show ?thesis using y op p True by (intro conjI exI [of _ "[]"]) simp_all
      next
        assume a: "routed s1 = routed s @ [?t] \<and> canary_progress ?t = None"
        then have "?t \<noteq> 100" using canary_progress_values(5) by auto
        then have lt: "?t < 100" by simp
        show ?thesis using y op p True a lt by (intro conjI exI [of _ "[?t]"]) simp_all
      qed
    qed
  qed
qed

lemma ramp_chain_bounds:
  "ramp_chain inc t ts \<Longrightarrow> (\<forall>x \<in> set ts. x \<le> 100) \<and> (0 \<le> inc \<longrightarrow> t \<le> 100 \<longrightarrow> sorted (t # ts))"
proof (induction ts arbitrary: t)
  case Nil then show ?case by simp
next
  case (Cons x xs)
  from Cons.prems have x: "x = min 100 (t + inc)" and ch: "ramp_chain inc x xs" by auto
  from Cons.IH [OF ch] have ih: "(\<forall>y \<in> set xs. y \<le> 100)"
     "0 \<le> inc \<Longrightarrow> x \<le> 100 \<Longrightarrow> sorted (x # xs)" by simp_all
  have "x \<le> 100" using x by simp
  moreover have "0 \<le> inc \<Longrightarrow> t \<le> 100 \<Longrightarrow> t \<le> x" using x by simp
  ultimately show ?case using ih by (auto intro: order_trans)
qed

lemma canary_ramp_terminates:
  assumes "0 < traffic_increment cfg"
  shows "canary_ramp w cfg t s \<noteq> None"
proof (induction "nat (100 - t)" arbitrary: t s rule: less_induct)
  case less
  show ?case
  proof (cases "t < 100")
    case False
    then show ?thesis by (simp add: canary_ramp.simps)
  next
    case True
    obtain r s1 where c: "ramp_cycle w cfg t s = (r, s1)" by (cases "ramp_cycle w cfg t s")
    note rc = ramp_cycle_result [OF c]
    show ?thesis
    proof (cases r)
      case (Normal t1)
      then have "t1 = min 100 (t + traffic_increment cfg)" using rc by simp
      then have "nat (100 - t1) < nat (100 - t)" using True assms by auto
      from less [OF this] have "canary_ramp w cfg t1 s1 \<noteq> None" .
      then show ?thesis using True c Normal by (subst canary_ramp.simps) simp
    next
      case (Return b)
      then show ?thesis using True c by (subst canary_ramp.simps) simp
    next
      case (Raise e)
      then show ?thesis using True c by (subst canary_ramp.simps) simp
    qed
  qed
qed

lemma call_returns:
  "cluster w (length (calls s)) a = Returns b \<Longrightarrow>
   call w a s = (Normal (), s\<lparr>calls := calls s @ [a]\<rparr>)"
  by (simp add: call_def ask_def seq_def stmt_def)

lemma for_services_returns:
  assumes "returns_for w xs"
  shows "for_services (\<lambda>svc. call w (act svc)) xs s
           = (Normal (), s\<lparr>calls := calls s @ map act xs\<rparr>)"
proof (cases "xs = []")
  case True then show ?thesis by simp
next
  case False
  with assms have q: "\<And>n a. \<exists>b. cluster w n a = Returns b"
    by (auto simp: returns_for_def)
  show ?thesis
  proof (induction xs arbitrary: s)
    case Nil then show ?case by simp
  next
    case (Cons x xs)
    obtain b where "cluster w (length (calls s)) (act x) = Returns b" using q by blast
    from call_returns [OF this] show ?case by (simp add: Cons.IH)
  qed
qed

lemma deploy_returns:
  assumes "returns_for w (services (plan s))"
  shows "deploy_canary_version w s
           = (Normal (), s\<lparr>calls := calls s @ map apply_canary_manifest (services (plan s))\<rparr>)"
  unfolding deploy_canary_version_def by (rule for_services_returns [OF assms])

lemma route_returns:
  assumes "returns_for w (services (plan s))"
  shows "route_traffic_to_canary w pct s
           = (Normal (),
              s\<lparr>calls := calls s @ map (\<lambda>svc. apply_traffic_routing svc pct) (services (plan s)),
                routed := routed s @ [pct]\<rparr>)"
  unfolding route_traffic_to_canary_def
  by (simp add: seq_def stmt_def for_services_returns [OF assms])

lemma promote_returns:
  assumes "returns_for w (services (plan s))"
  shows "promote_canary_to_stable w s
           = (Normal (),
              s\<lparr>calls := calls s @ concat (map (\<lambda>svc. [apply_stable_manifest svc,
                                                       remove_canary_deployment svc])
                                          (services (plan s)))\<rparr>)"
proof (cases "services (plan s) = []")
  case True then show ?thesis by (simp add: promote_canary_to_stable_def)
next
  case False
  with assms have q: "\<And>n a. \<exists>b. cluster w n a = Returns b"
    by (auto simp: returns_for_def)
  have "for_services (\<lambda>svc. seq (call w (apply_stable_manifest svc))
                 (\<lambda>u. call w (remove_canary_deployment svc))) xs s0
        = (Normal (), s0\<lparr>calls := calls s0 @ concat (map (\<lambda>svc. [apply_stable_manifest svc,
                                                       remove_canary_deployment svc]) xs)\<rparr>)"
    for xs s0
  proof (induction xs arbitrary: s0)
    case Nil then show ?case by simp
  next
    case (Cons x xs)
    obtain b where 1: "cluster w (length (calls s0)) (apply_stable_manifest x) = Returns b"
      using q by blast
    obtain b' where 2: "cluster w (Suc (length (calls s0))) (remove_canary_deployment x) = Returns b'"
      using q by blast
    have body: "seq (call w (apply_stable_manifest x))
                 (\<lambda>u. call w (remove_canary_deployment x)) s0
          = (Normal (), s0\<lparr>calls := calls s0 @ [apply_stable_manifest x,
                                                  remove_canary_deployment x]\<rparr>)"
      using call_returns [OF 1]
        call_returns [of w "s0\<lparr>calls := calls s0 @ [apply_stable_manifest x]\<rparr>"
                         "remove_canary_deployment x" b']
        2
      by (simp add: seq_def)
    show ?case by (simp add: body Cons.IH)
  qed
  then show ?thesis by (simp add: promote_canary_to_stable_def)
qed

lemma rollback_canary_returns:
  assumes "returns_for w (services (plan s))"
  shows "rollback_canary_deployment w s
           = (Normal (),
              s\<lparr>calls := calls s @ map (\<lambda>svc. apply_traffic_routing svc 0) (services (plan s))
                             @ map remove_canary_deployment (services (plan s)),
                routed := routed s @ [0]\<rparr>)"
  unfolding rollback_canary_deployment_def
  using assms by (simp add: seq_def route_returns for_services_returns)

lemma send_rollback_notification_eq:
  "send_rollback_notification w cfg s
     = (if slack_webhook cfg \<noteq> [] then s\<lparr>calls := calls s @ [post_rollback_notification]\<rparr>
        else s)"
  by (simp add: send_rollback_notification_def call_def ask_def seq_def stmt_def
        split: outcome.splits)

lemma execute_rollback_canary_returns:
  assumes "strategy (plan s) = CANARY"
    and "returns_for w (services (plan s))"
  shows "execute_rollback w cfg s
           = (set_status ROLLED_BACK s)
               \<lparr>calls := calls s @ map (\<lambda>svc. apply_traffic_routing svc 0) (services (plan s))
                             @ map remove_canary_deployment (services (plan s))
                             @ (if slack_webhook cfg \<noteq> [] then [post_rollback_notification]
                                else []),
                routed := routed s @ [0]\<rparr>"
  using assms
  by (simp add: execute_rollback_def seq_def stmt_def rollback_canary_returns
        send_rollback_notification_eq set_status_def assign_def)

lemma ramp_cycle_pass:
  assumes "returns_for w (services (plan s))"
    and "validate_canary_metrics cfg (prometheus w (validations s))"
    and "canary_progress (min 100 (t + traffic_increment cfg)) \<noteq> None"
  shows "ramp_cycle w cfg t s
           = (Normal (min 100 (t + traffic_increment cfg)),
              set_progress (the (canary_progress (min 100 (t + traffic_increment cfg))))
                (s\<lparr>slept := slept s @ [wait_time_between_steps cfg],
                   validations := Suc (validations s),
                   calls := calls s @ map (\<lambda>svc. apply_traffic_routing svc
                                                (min 100 (t + traffic_increment cfg)))
                                        (services (plan s)),
                   routed := routed s @ [min 100 (t + traffic_increment cfg)]\<rparr>))"
  using assms
  by (auto simp: ramp_cycle_def validate_metrics_def sleep_def seq_def Let_def route_returns)

lemma ramp_cycle_fail:
  assumes "\<not> validate_canary_metrics cfg (prometheus w (validations s))"
  shows "ramp_cycle w cfg t s
           = (Return False,
              s\<lparr>slept := slept s @ [wait_time_between_steps cfg],
                validations := Suc (validations s)\<rparr>)"
  using assms by (simp add: ramp_cycle_def validate_metrics_def sleep_def)

lemma canary_ramp_done: "100 \<le> t \<Longrightarrow> canary_ramp w cfg t s = Some (Normal t, s)"
  by (simp add: canary_ramp.simps)

lemma canary_ramp_pass_step:
  assumes "t < 100" and "returns_for w (services (plan s))"
    and "validate_canary_metrics cfg (prometheus w (validations s))"
    and "canary_progress (min 100 (t + traffic_increment cfg)) \<noteq> None"
  shows "canary_ramp w cfg t s
           = canary_ramp w cfg (min 100 (t + traffic_increment cfg))
               (set_progress (the (canary_progress (min 100 (t + traffic_increment cfg))))
                 (s\<lparr>slept := slept s @ [wait_time_between_steps cfg],
                    validations := Suc (validations s),
                    calls := calls s @ map (\<lambda>svc. apply_traffic_routing svc
                                                 (min 100 (t + traffic_increment cfg)))
                                         (services (plan s)),
                    routed := routed s @ [min 100 (t + traffic_increment cfg)]\<rparr>))"
  by (subst canary_ramp.simps) (simp add: assms ramp_cycle_pass)

lemma canary_ramp_fail_step:
  assumes "t < 100" and "\<not> validate_canary_metrics cfg (prometheus w (validations s))"
  shows "canary_ramp w cfg t s
           = Some (Return False,
                   s\<lparr>slept := slept s @ [wait_time_between_steps cfg],
                     validations := Suc (validations s)\<rparr>)"
  by (subst canary_ramp.simps) (simp add: assms ramp_cycle_fail)

lemmas plan_write_defs = set_progress_def set_status_def set_error_message_def assign_def

lemma scenario_a:
  assumes "strategy p = CANARY" and "gitops w = None"
    and "initial_traffic_percentage cfg = 10" and "traffic_increment cfg = 20"
    and "\<forall>k. validate_canary_metrics cfg (prometheus w k)"
    and "returns_for w (services p)"
  shows "\<exists>s'. run_deployment w cfg p = Some s'
            \<and> routed s' = [10, 30, 50, 70, 90, 100] \<and> validations s' = 5
            \<and> status (plan s') = COMPLETED \<and> progress_percentage (plan s') = 100"
  using assms
  by (simp add: run_deployment_def Let_def dispatch_def execute_canary_deployment_def
        canary_steps_1_2_def canary_step_4_def canary_except_def conclude_def start_run_def
        seq_def stmt_def return_def plan_write_defs canary_progress_values
        deploy_returns route_returns promote_returns canary_ramp_pass_step canary_ramp_done)


lemma same_but_progress_fields:
  assumes "same_but_progress p q"
  shows "strategy q = strategy p" and "services q = services p"
    and "rollback_on_failure q = rollback_on_failure p" and "status q = status p"
    and "error_message q = error_message p" and "plan_id q = plan_id p"
proof -
  have e: "q\<lparr>progress_percentage := progress_percentage p\<rparr> = p"
    using assms by (simp add: same_but_progress_def)
  show "strategy q = strategy p" using arg_cong [OF e, of strategy] by simp
  show "services q = services p" using arg_cong [OF e, of services] by simp
  show "rollback_on_failure q = rollback_on_failure p"
    using arg_cong [OF e, of rollback_on_failure] by simp
  show "status q = status p" using arg_cong [OF e, of status] by simp
  show "error_message q = error_message p" using arg_cong [OF e, of error_message] by simp
  show "plan_id q = plan_id p" using arg_cong [OF e, of plan_id] by simp
qed


lemma no_return_ask: "no_return (ask w a)"
  by (simp add: no_return_def ask_def split: outcome.splits)

lemma no_return_stmt: "no_return (stmt f)"
  by (simp add: no_return_def stmt_def)

lemma no_return_seq: "no_return m \<Longrightarrow> (\<And>v. no_return (k v)) \<Longrightarrow> no_return (seq m k)"
  unfolding no_return_def seq_def
  by (auto split: prod.splits ctl.splits) (metis fst_conv)+

lemma no_return_call: "no_return (call w a)"
  unfolding call_def by (intro no_return_seq no_return_ask no_return_stmt)

lemma no_return_for_services:
  assumes "\<And>x. no_return (body x)"
  shows "no_return (for_services body xs)"
  unfolding no_return_def
proof (intro allI)
  fix s b show "fst (for_services body xs s) \<noteq> Return b"
  proof (induction xs arbitrary: s)
    case Nil then show ?case by simp
  next
    case (Cons x xs)
    obtain r s1 where bx: "body x s = (r, s1)" by (cases "body x s")
    have "r \<noteq> Return b'" for b'
      using assms [of x] bx unfolding no_return_def by (metis fst_conv)
    then show ?case using bx Cons.IH [of s1] by (cases r) simp_all
  qed
qed

lemma no_return_route: "no_return (route_traffic_to_canary w pct)"
proof -
  have "no_return (seq (for_services (\<lambda>svc. call w (apply_traffic_routing svc pct)) xs)
         (\<lambda>u. stmt (\<lambda>s'. s'\<lparr>routed := routed s' @ [pct]\<rparr>)))" for xs
    by (intro no_return_seq no_return_for_services no_return_call no_return_stmt)
  then show ?thesis
    unfolding no_return_def route_traffic_to_canary_def by blast
qed

lemma no_return_deploy: "no_return (deploy_canary_version w)"
  using no_return_for_services [of "\<lambda>svc. call w (apply_canary_manifest svc)", OF no_return_call]
  unfolding no_return_def deploy_canary_version_def by blast

lemma no_return_promote: "no_return (promote_canary_to_stable w)"
proof -
  have "no_return (for_services (\<lambda>svc. seq (call w (apply_stable_manifest svc))
                 (\<lambda>u. call w (remove_canary_deployment svc))) xs)" for xs
    by (intro no_return_for_services no_return_seq no_return_call)
  then show ?thesis unfolding no_return_def promote_canary_to_stable_def by blast
qed

lemma no_return_rollback_canary: "no_return (rollback_canary_deployment w)"
proof -
  have "no_return (\<lambda>s'. for_services (\<lambda>svc. call w (remove_canary_deployment svc))
                    (services (plan s')) s')"
    using no_return_for_services [of "\<lambda>svc. call w (remove_canary_deployment svc)", OF no_return_call]
    unfolding no_return_def by blast
  then show ?thesis
    unfolding rollback_canary_deployment_def by (intro no_return_seq no_return_route)
qed

lemma no_return_steps_1_2: "no_return (canary_steps_1_2 w cfg)"
  unfolding canary_steps_1_2_def
  by (intro no_return_seq no_return_stmt no_return_deploy no_return_route)

lemma no_returnD: "no_return m \<Longrightarrow> m s \<noteq> (Return b, s')"
  unfolding no_return_def by (metis fst_conv)

lemma canary_except_true:
  assumes "canary_except w r = (Return True, s')"
  shows "r = (Return True, s')"
proof -
  obtain c s where r: "r = (c, s)" by (cases r)
  show ?thesis
  proof (cases c)
    case (Normal v) then show ?thesis using assms r by (simp add: canary_except_def)
  next
    case (Return b) then show ?thesis using assms r by (simp add: canary_except_def)
  next
    case (Raise e)
    obtain c2 s2 where rb: "rollback_canary_deployment w s = (c2, s2)"
      by (cases "rollback_canary_deployment w s")
    have "c2 \<noteq> Return True" using no_returnD [OF no_return_rollback_canary] rb by metis
    then show ?thesis using assms r Raise rb
      by (cases c2) (simp_all add: canary_except_def seq_def return_def)
  qed
qed

lemma canary_step_4_true:
  assumes "canary_step_4 w s = (Return True, s')"
  shows "plan s' = (plan s)\<lparr>progress_percentage := 100\<rparr>
         \<and> trace s' = trace s @ [(plan s)\<lparr>progress_percentage := 95\<rparr>,
                                 (plan s)\<lparr>progress_percentage := 100\<rparr>]
         \<and> routed s' = routed s \<and> validations s' = validations s"
proof -
  let ?s1 = "set_progress 95 s"
  obtain c s2 where p: "promote_canary_to_stable w ?s1 = (c, s2)"
    by (cases "promote_canary_to_stable w ?s1")
  note k = keeps_planD [OF keeps_plan_promote p]
  have rv: "routed s2 = routed ?s1 \<and> validations s2 = validations ?s1"
  proof -
    have "for_services (\<lambda>svc. seq (call w (apply_stable_manifest svc))
                 (\<lambda>u. call w (remove_canary_deployment svc))) xs s0 = (c0, s3) \<Longrightarrow>
          routed s3 = routed s0 \<and> validations s3 = validations s0" for xs s0 c0 s3
    proof (induction xs arbitrary: s0)
      case Nil then show ?case by simp
    next
      case (Cons x xs)
      obtain r4 s4 where b: "seq (call w (apply_stable_manifest x))
                 (\<lambda>u. call w (remove_canary_deployment x)) s0 = (r4, s4)"
        by (cases "seq (call w (apply_stable_manifest x))
                 (\<lambda>u. call w (remove_canary_deployment x)) s0")
      then have "routed s4 = routed s0 \<and> validations s4 = validations s0"
        by (auto simp: run_defs split: outcome.splits)
      then show ?case using Cons.prems b Cons.IH [of s4] by (cases r4) auto
    qed
    then show ?thesis using p unfolding promote_canary_to_stable_def by blast
  qed
  show ?thesis
  proof (cases c)
    case (Normal u)
    then have "s' = set_progress 100 s2" using assms p
      by (simp add: canary_step_4_def seq_def stmt_def return_def)
    then show ?thesis using k rv by (simp add: plan_write_defs)
  next
    case (Return b)
    then show ?thesis using no_returnD [OF no_return_promote] p by metis
  next
    case (Raise e)
    then show ?thesis using assms p
      by (simp add: canary_step_4_def seq_def stmt_def return_def)
  qed
qed

lemma execute_canary_true:
  assumes "execute_canary_deployment w cfg s = Some (Return True, s')"
  shows "\<exists>s2 t. canary_steps_1_2 w cfg s = (Normal (), fst s2)
           \<and> canary_ramp w cfg (initial_traffic_percentage cfg) (fst s2) = Some (Normal t, snd s2)
           \<and> canary_step_4 w (snd s2) = (Return True, s')"
proof -
  obtain c1 s1 where a: "canary_steps_1_2 w cfg s = (c1, s1)"
    by (cases "canary_steps_1_2 w cfg s")
  show ?thesis
  proof (cases c1)
    case (Normal u)
    obtain y where rp: "canary_ramp w cfg (initial_traffic_percentage cfg) s1 = Some y"
      using assms a Normal by (auto simp: execute_canary_deployment_def split: option.splits)
    obtain c2 s2 where y: "y = (c2, s2)" by (cases y)
    show ?thesis
    proof (cases c2)
      case (Normal t)
      then have "canary_except w (canary_step_4 w s2) = (Return True, s')"
        using assms a \<open>c1 = Normal u\<close> rp y by (simp add: execute_canary_deployment_def)
      from canary_except_true [OF this] show ?thesis
        using a \<open>c1 = Normal u\<close> rp y Normal by auto
    next
      case (Return b)
      then have "canary_except w (Return b, s2) = (Return True, s')"
        using assms a \<open>c1 = Normal u\<close> rp y by (simp add: execute_canary_deployment_def)
      from canary_except_true [OF this] have "b" by simp
      moreover have "\<not> b" using canary_ramp_partial [OF rp] y Return by auto
      ultimately show ?thesis by simp
    next
      case (Raise e)
      then have "canary_except w (Raise e, s2) = (Return True, s')"
        using assms a \<open>c1 = Normal u\<close> rp y by (simp add: execute_canary_deployment_def)
      from canary_except_true [OF this] show ?thesis by simp
    qed
  next
    case (Return b)
    then show ?thesis using no_returnD [OF no_return_steps_1_2] a by metis
  next
    case (Raise e)
    then have "canary_except w (Raise e, s1) = (Return True, s')"
      using assms a by (simp add: execute_canary_deployment_def)
    from canary_except_true [OF this] show ?thesis by simp
  qed
qed

lemma execute_deployment_run:
  assumes "active_deployments a pid = Some p" and "run_deployment w cfg p = Some s"
  shows "execute_deployment w cfg pid a
           = Some (status (plan s) = COMPLETED,
                   a\<lparr>deployment_history := deployment_history a @ [plan s],
                     active_deployments := (active_deployments a)(pid := None)\<rparr>)"
  using assms by (simp add: execute_deployment_def)

lemma canary_plan_fields:
  "strategy (canary_plan svcs) = CANARY" "services (canary_plan svcs) = svcs"
  "rollback_on_failure (canary_plan svcs)" "status (canary_plan svcs) = PENDING"
  by (simp_all add: canary_plan_def new_plan_def Let_def plan_kwargs_for_def get_or_def)

lemma healthy_passes: "validate_canary_metrics default_config healthy"
  by (simp add: validate_canary_metrics_def check_reply_def healthy_def default_config_def)



lemma canary_ramp_loops:
  assumes "traffic_increment cfg = 0" and "\<forall>k. validate_canary_metrics cfg (prometheus w k)"
    and "\<forall>n a. \<exists>b. cluster w n a = Returns b" and "canary_progress t \<noteq> None"
    and "canary_ramp w cfg t s = Some y"
  shows "100 \<le> t"
  using assms(5) assms(1-4)
proof (induction w cfg t s y rule: canary_ramp.raw_induct [rotated, consumes 1, case_names step])
  case (step f w cfg t s y)
  show ?case
  proof (rule ccontr)
    assume "\<not> 100 \<le> t"
    then have lt: "t < 100" and m: "min 100 (t + traffic_increment cfg) = t"
      using step(3) by simp_all
    have q: "returns_for w (services (plan s))" using step(5) by (simp add: returns_for_def)
    have v: "validate_canary_metrics cfg (prometheus w (validations s))" using step(4) by simp
    have c: "canary_progress (min 100 (t + traffic_increment cfg)) \<noteq> None"
      using step(6) m by simp
    from ramp_cycle_pass [OF q v c] obtain s1 where "ramp_cycle w cfg t s = (Normal t, s1)"
      using m by simp
    then have "f w cfg t s1 = Some y" using step(2) lt by simp
    from step(1) [OF this step(3-6)] lt show False by simp
  qed
qed

text \<open>
  C5. The loop of a canary run changes the traffic only by
  \<^verbatim>\<open>min(100, traffic_percentage + increment)\<close>, after a validation that passed: the
  percentages it routes form such a chain from the initial percentage, one for each
  validation that passed. None of them exceeds 100; with an increment that is not
  negative they do not decrease; every percentage but the last is below 100. When
  the loop falls through, the traffic is at least 100: it is 100 when the initial
  percentage is at most 100, and it is the initial percentage, with no cycle run,
  when that is above 100. With a positive increment the loop ends. With an initial
  percentage of 10 and an increment of 20, validations that all pass, a repository
  that is prepared and actions that return (or no service to act on), the
  percentages routed are 10, 30, 50, 70, 90, 100, five validations are made, and the
  plan ends \<^verbatim>\<open>COMPLETED\<close> with \<^verbatim>\<open>execute_deployment\<close> returning \<^verbatim>\<open>True\<close>.
\<close>

theorem canary_ramp_traffic:
  "(\<forall>y. canary_ramp w cfg t s = Some y \<longrightarrow>
       (\<exists>ts. routed (snd y) = routed s @ ts
           \<and> ramp_chain (traffic_increment cfg) t ts
           \<and> (\<forall>i<length ts. validate_canary_metrics cfg (prometheus w (validations s + i)))
           \<and> (\<forall>x\<in>set ts. x \<le> 100)
           \<and> (0 \<le> traffic_increment cfg \<longrightarrow> sorted (t # ts))
           \<and> (\<forall>x\<in>set (butlast (t # ts)). x < 100)
           \<and> (\<forall>t'. fst y = Normal t' \<longrightarrow>
                  t' = last (t # ts) \<and> 100 \<le> t' \<and> (t \<le> 100 \<longrightarrow> t' = 100)
                  \<and> (100 < t \<longrightarrow> t' = t \<and> ts = []))))
   \<and> (0 < traffic_increment cfg \<longrightarrow> canary_ramp w cfg t s \<noteq> None)
   \<and> (active_deployments a pid = Some p \<and> strategy p = CANARY \<and> gitops w = None
        \<and> initial_traffic_percentage cfg = 10 \<and> traffic_increment cfg = 20
        \<and> (\<forall>k. validate_canary_metrics cfg (prometheus w k)) \<and> returns_for w (services p) \<longrightarrow>
        (\<exists>s'. run_deployment w cfg p = Some s'
             \<and> routed s' = [10, 30, 50, 70, 90, 100] \<and> validations s' = 5
             \<and> status (plan s') = COMPLETED \<and> progress_percentage (plan s') = 100
             \<and> execute_deployment w cfg pid a
                 = Some (True,
                         a\<lparr>deployment_history := deployment_history a @ [plan s'],
                           active_deployments := (active_deployments a)(pid := None)\<rparr>)))"
proof (intro conjI allI impI)
  fix y assume y: "canary_ramp w cfg t s = Some y"
  from canary_ramp_partial [OF y] obtain ts where ts:
    "routed (snd y) = routed s @ ts" "ramp_chain (traffic_increment cfg) t ts"
    "\<forall>x \<in> set (butlast (t # ts)). x < 100"
    "\<forall>i < length ts. validate_canary_metrics cfg (prometheus w (validations s + i))"
    and cs: "(case fst y of
                  Normal t' \<Rightarrow> t' = last (t # ts) \<and> 100 \<le> t'
                              \<and> length ts = validations (snd y) - validations s
                              \<and> (if ts = [] then snd y = s
                                 else canary_progress t'
                                        = Some (progress_percentage (plan (snd y))))
                | Return b \<Rightarrow> \<not> b \<and> last (t # ts) < 100
                | Raise e \<Rightarrow> last (t # ts) < 100)"
    by blast
  note bd = ramp_chain_bounds [OF ts(2)]
  have ne: "ts \<noteq> [] \<Longrightarrow> t < 100" using ts(3) by (cases ts) simp_all
  have so: "0 \<le> traffic_increment cfg \<Longrightarrow> sorted (t # ts)"
  proof (cases "ts = []")
    case True then show ?thesis by simp
  next
    case False
    assume "0 \<le> traffic_increment cfg"
    then show ?thesis using bd ne [OF False] by simp
  qed
  have top: "fst y = Normal t' \<Longrightarrow> t' = last (t # ts) \<and> 100 \<le> t' \<and> (t \<le> 100 \<longrightarrow> t' = 100)
                  \<and> (100 < t \<longrightarrow> t' = t \<and> ts = [])"
    for t'
  proof -
    assume n: "fst y = Normal t'"
    then have 1: "t' = last (t # ts)" "100 \<le> t'" using cs by simp_all
    have 2: "t \<le> 100 \<Longrightarrow> last (t # ts) \<le> 100"
      using bd by (cases "ts = []") auto
    have 3: "100 < t \<Longrightarrow> ts = []" using ne by fastforce
    show ?thesis using 1 2 3 by auto
  qed
  show "\<exists>ts. routed (snd y) = routed s @ ts
           \<and> ramp_chain (traffic_increment cfg) t ts
           \<and> (\<forall>i<length ts. validate_canary_metrics cfg (prometheus w (validations s + i)))
           \<and> (\<forall>x\<in>set ts. x \<le> 100)
           \<and> (0 \<le> traffic_increment cfg \<longrightarrow> sorted (t # ts))
           \<and> (\<forall>x\<in>set (butlast (t # ts)). x < 100)
           \<and> (\<forall>t'. fst y = Normal t' \<longrightarrow>
                  t' = last (t # ts) \<and> 100 \<le> t' \<and> (t \<le> 100 \<longrightarrow> t' = 100)
                  \<and> (100 < t \<longrightarrow> t' = t \<and> ts = []))"
    using ts bd so top by (intro exI [of _ ts]) blast
next
  assume "0 < traffic_increment cfg"
  then show "canary_ramp w cfg t s \<noteq> None" by (rule canary_ramp_terminates)
next
  assume h: "active_deployments a pid = Some p \<and> strategy p = CANARY \<and> gitops w = None
        \<and> initial_traffic_percentage cfg = 10 \<and> traffic_increment cfg = 20
        \<and> (\<forall>k. validate_canary_metrics cfg (prometheus w k)) \<and> returns_for w (services p)"
  then obtain s' where s': "run_deployment w cfg p = Some s'"
    "routed s' = [10, 30, 50, 70, 90, 100]" "validations s' = 5"
    "status (plan s') = COMPLETED" "progress_percentage (plan s') = 100"
    using scenario_a [of p w cfg] by blast
  have "execute_deployment w cfg pid a
                 = Some (True,
                         a\<lparr>deployment_history := deployment_history a @ [plan s'],
                           active_deployments := (active_deployments a)(pid := None)\<rparr>)"
    using execute_deployment_run [OF _ s'(1), of a pid] h s'(4) by simp
  then show "\<exists>s'. run_deployment w cfg p = Some s'
             \<and> routed s' = [10, 30, 50, 70, 90, 100] \<and> validations s' = 5
             \<and> status (plan s') = COMPLETED \<and> progress_percentage (plan s') = 100
             \<and> execute_deployment w cfg pid a
                 = Some (True,
                         a\<lparr>deployment_history := deployment_history a @ [plan s'],
                           active_deployments := (active_deployments a)(pid := None)\<rparr>)"
    using s' by blast
qed

theorem canary_ramp_traffic_witness:
  "canary_ramp shipped_world default_config 10 (start_run (canary_plan [])) \<noteq> None
   \<and> (\<exists>y. canary_ramp shipped_world default_config 10 (start_run (canary_plan [])) = Some y
          \<and> sorted (10 # routed (snd y)) \<and> list_all (\<lambda>x. x \<le> 100) (routed (snd y)))
   \<and> (\<exists>s'. run_deployment calm_world default_config (canary_plan [''api'', ''web'']) = Some s'
          \<and> routed s' = [10, 30, 50, 70, 90, 100] \<and> validations s' = 5
          \<and> status (plan s') = COMPLETED \<and> progress_percentage (plan s') = 100)
   \<and> (\<exists>s'. run_deployment shipped_world default_config (canary_plan []) = Some s'
          \<and> routed s' = [10, 30, 50, 70, 90, 100] \<and> validations s' = 5
          \<and> status (plan s') = COMPLETED \<and> progress_percentage (plan s') = 100)"
proof -
  have i: "0 < traffic_increment default_config" by (simp add: default_config_def)
  have c: "initial_traffic_percentage default_config = 10 \<and> traffic_increment default_config = 20"
    by (simp add: default_config_def)
  have v1: "\<forall>k. validate_canary_metrics default_config (prometheus calm_world k)"
    using healthy_passes by (simp add: calm_world_def)
  have v2: "\<forall>k. validate_canary_metrics default_config (prometheus shipped_world k)"
    using healthy_passes by (simp add: shipped_world_def)
  have q1: "returns_for calm_world (services (canary_plan [''api'', ''web'']))"
    by (auto simp: returns_for_def calm_world_def)
  have q2: "returns_for shipped_world (services (canary_plan []))"
    by (simp add: returns_for_def canary_plan_fields)
  have a: "active_deployments (registry_with p) (plan_id p) = Some p" for p
    by (simp add: registry_with_def)
  have g: "gitops calm_world = None" "gitops shipped_world = None"
    by (simp_all add: calm_world_def shipped_world_def)
  note t1 = canary_ramp_traffic
      [where w = shipped_world and cfg = default_config and t = 10
         and s = "start_run (canary_plan [])", THEN conjunct2, THEN conjunct1, rule_format, OF i]
  note t2 = canary_ramp_traffic
      [where w = calm_world and cfg = default_config and p = "canary_plan [''api'', ''web'']"
         and a = "registry_with (canary_plan [''api'', ''web''])"
         and pid = "plan_id (canary_plan [''api'', ''web''])",
       THEN conjunct2, THEN conjunct2, rule_format]
  note t3 = canary_ramp_traffic
      [where w = shipped_world and cfg = default_config and p = "canary_plan []"
         and a = "registry_with (canary_plan [])" and pid = "plan_id (canary_plan [])",
       THEN conjunct2, THEN conjunct2, rule_format]
  have r2: "\<exists>s'. run_deployment calm_world default_config (canary_plan [''api'', ''web'']) = Some s'
          \<and> routed s' = [10, 30, 50, 70, 90, 100] \<and> validations s' = 5
          \<and> status (plan s') = COMPLETED \<and> progress_percentage (plan s') = 100"
    using t2 a g c v1 q1 canary_plan_fields(1) by blast
  have r3: "\<exists>s'. run_deployment shipped_world default_config (canary_plan []) = Some s'
          \<and> routed s' = [10, 30, 50, 70, 90, 100] \<and> validations s' = 5
          \<and> status (plan s') = COMPLETED \<and> progress_percentage (plan s') = 100"
    using t3 a g c v2 q2 canary_plan_fields(1) by blast
  from t1 obtain y where
    y: "canary_ramp shipped_world default_config 10 (start_run (canary_plan [])) = Some y"
    by auto
  from canary_ramp_traffic [THEN conjunct1, rule_format, OF y] i
  have r1: "sorted (10 # routed (snd y)) \<and> list_all (\<lambda>x. x \<le> 100) (routed (snd y))"
    by (auto simp: start_run_def list_all_iff)
  show ?thesis using t1 y r1 r2 r3 by blast
qed

text \<open>
  The same plan with three other configurations. With an initial percentage of 150
  the loop does not run: 150 percent is routed, no validation is made and the plan
  ends \<^verbatim>\<open>COMPLETED\<close>. With an increment of \<open>-20\<close> the traffic goes from 10 down to \<open>-10\<close>
  before the second validation fails. With an increment of 0 the traffic stays at 10
  and the loop never ends.
\<close>

theorem ramp_above_100_decreasing_or_endless:
  "(\<exists>s'. run_deployment calm_world (default_config\<lparr>initial_traffic_percentage := 150\<rparr>)
            (canary_plan [''api'', ''web'']) = Some s'
         \<and> routed s' = [150] \<and> validations s' = 0 \<and> status (plan s') = COMPLETED)
   \<and> (\<exists>s'. run_deployment error_spike_world (default_config\<lparr>traffic_increment := - 20\<rparr>)
            (canary_plan [''api'', ''web'']) = Some s'
         \<and> routed s' = [10, - 10, 0] \<and> validations s' = 2 \<and> status (plan s') = ROLLED_BACK)
   \<and> canary_ramp calm_world (default_config\<lparr>traffic_increment := 0\<rparr>) 10
        (start_run (canary_plan [''api'', ''web''])) = None"
proof (intro conjI)
  have q: "returns_for calm_world svcs" for svcs
    by (auto simp: returns_for_def calm_world_def)
  show "\<exists>s'. run_deployment calm_world (default_config\<lparr>initial_traffic_percentage := 150\<rparr>)
            (canary_plan [''api'', ''web'']) = Some s'
         \<and> routed s' = [150] \<and> validations s' = 0 \<and> status (plan s') = COMPLETED"
    by (simp add: run_deployment_def Let_def dispatch_def execute_canary_deployment_def
          canary_steps_1_2_def canary_step_4_def canary_except_def conclude_def start_run_def
          seq_def stmt_def return_def plan_write_defs canary_plan_fields q
          deploy_returns route_returns promote_returns canary_ramp_done
          default_config_def calm_world_def [THEN arg_cong, of gitops])
next
  have q: "returns_for error_spike_world svcs" for svcs
    by (auto simp: returns_for_def error_spike_world_def)
  have v0: "validate_canary_metrics (default_config\<lparr>traffic_increment := - 20\<rparr>)
              (prometheus error_spike_world 0)"
    by (simp add: error_spike_world_def healthy_def validate_canary_metrics_def check_reply_def
          default_config_def)
  have v1: "\<not> validate_canary_metrics (default_config\<lparr>traffic_increment := - 20\<rparr>)
              (prometheus error_spike_world (Suc 0))"
    by (simp add: error_spike_world_def validate_canary_metrics_def check_reply_def
          default_config_def)
  have g: "gitops error_spike_world = None" by (simp add: error_spike_world_def)
  have c: "initial_traffic_percentage (default_config\<lparr>traffic_increment := - 20\<rparr>) = 10"
    "slack_webhook (default_config\<lparr>traffic_increment := - 20\<rparr>) \<noteq> []"
    by (simp_all add: default_config_def)
  show "\<exists>s'. run_deployment error_spike_world (default_config\<lparr>traffic_increment := - 20\<rparr>)
            (canary_plan [''api'', ''web'']) = Some s'
         \<and> routed s' = [10, - 10, 0] \<and> validations s' = 2 \<and> status (plan s') = ROLLED_BACK"
    by (simp add: run_deployment_def Let_def dispatch_def execute_canary_deployment_def
          canary_steps_1_2_def canary_except_def conclude_def start_run_def
          seq_def stmt_def return_def plan_write_defs canary_plan_fields q v0 v1 g c
          deploy_returns route_returns canary_ramp_pass_step canary_ramp_fail_step
          canary_progress_values execute_rollback_canary_returns)
next
  let ?cfg = "default_config\<lparr>traffic_increment := 0\<rparr>"
  have a1: "traffic_increment ?cfg = 0" by simp
  have a2: "\<forall>k. validate_canary_metrics ?cfg (prometheus calm_world k)"
    by (simp add: calm_world_def validate_canary_metrics_def check_reply_def healthy_def
          default_config_def)
  have a3: "\<forall>n a. \<exists>b. cluster calm_world n a = Returns b"
    by (auto simp: calm_world_def)
  have a4: "canary_progress 10 \<noteq> None" by (simp add: canary_progress_small)
  have "canary_ramp calm_world ?cfg 10 (start_run (canary_plan [''api'', ''web''])) \<noteq> Some y"
    for y
  proof
    assume "canary_ramp calm_world ?cfg 10 (start_run (canary_plan [''api'', ''web''])) = Some y"
    from canary_ramp_loops [OF a1 a2 a3 a4 this] show False by simp
  qed
  then show "canary_ramp calm_world ?cfg 10 (start_run (canary_plan [''api'', ''web''])) = None"
    by (cases "canary_ramp calm_world ?cfg 10 (start_run (canary_plan [''api'', ''web'']))") auto
qed

text \<open>
  C6. A cycle of the ramp loop that raises the traffic to \<open>t'\<close> sets the progress, as
  its one assignment to the plan, to the float that \<^verbatim>\<open>20 + (traffic_percentage * 0.7)\<close>
  evaluates to: for a percentage below \<open>2 ^ 53\<close> in absolute value, the product of
  \<open>t'\<close> and the float nearest to 0.7, rounded, plus 20, rounded again. For a
  percentage from 0 to 100 it lies within \<open>21 / 2 ^ 50\<close> (less than \<open>2 / 10 ^ 14\<close>) of
  \<open>20 + 0.7 * t'\<close>. A cycle that ends in \<^verbatim>\<open>return False\<close> or in an exception assigns
  nothing. After a loop that ran at least one cycle and fell through, the traffic is
  100 and the progress is 90. When the executor returns \<^verbatim>\<open>True\<close>, the last two
  assignments set the progress to 95, before the promotion, and to 100, after it.
\<close>

theorem canary_progress_weighting:
  "(\<forall>t' s'. ramp_cycle w cfg t s = (Normal t', s') \<longrightarrow>
       t' = min 100 (t + traffic_increment cfg) \<and> routed s' = routed s @ [t']
       \<and> canary_progress t' = Some (progress_percentage (plan s'))
       \<and> trace s' = trace s @ [plan s']
       \<and> (\<bar>t'\<bar> < 2 ^ 53 \<longrightarrow>
            progress_percentage (plan s')
              = binary64 (20 + binary64 (real_of_int t' * binary64 (7 / 10))))
       \<and> (0 \<le> t' \<longrightarrow>
            \<bar>progress_percentage (plan s') - (20 + 0.7 * real_of_int t')\<bar> \<le> 21 / 2 ^ 50))
   \<and> (\<forall>r s'. ramp_cycle w cfg t s = (r, s') \<and> (\<forall>t'. r \<noteq> Normal t') \<longrightarrow>
         plan s' = plan s \<and> trace s' = trace s)
   \<and> (\<forall>t' s'. t < 100 \<and> canary_ramp w cfg t s = Some (Normal t', s') \<longrightarrow>
         t' = 100 \<and> progress_percentage (plan s') = 90)
   \<and> (\<forall>s'. execute_canary_deployment w cfg s = Some (Return True, s') \<longrightarrow>
         progress_percentage (plan s') = 100
         \<and> (\<exists>q tr. trace s' = tr @ [q\<lparr>progress_percentage := 95\<rparr>,
                                     q\<lparr>progress_percentage := 100\<rparr>]))"
proof (intro conjI allI impI)
  fix t' s' assume c: "ramp_cycle w cfg t s = (Normal t', s')"
  from ramp_cycle_result [OF c]
  show 1: "t' = min 100 (t + traffic_increment cfg)" and "routed s' = routed s @ [t']"
    and 2: "canary_progress t' = Some (progress_percentage (plan s'))"
    and "trace s' = trace s @ [plan s']"
    by auto
  {
    assume "\<bar>t'\<bar> < 2 ^ 53"
    from canary_progress_small [OF this] 2
    show "progress_percentage (plan s')
            = binary64 (20 + binary64 (real_of_int t' * binary64 (7 / 10)))"
      by (simp add: seven_tenths)
  }
  {
    assume "0 \<le> t'"
    moreover have "t' \<le> 100" using 1 by simp
    ultimately show "\<bar>progress_percentage (plan s') - (20 + 0.7 * real_of_int t')\<bar> \<le> 21 / 2 ^ 50"
      using canary_progress_error [of t'] 2 by auto
  }
next
  fix r s' assume c: "ramp_cycle w cfg t s = (r, s') \<and> (\<forall>t'. r \<noteq> Normal t')"
  then have "ramp_cycle w cfg t s = (r, s')" and n: "\<And>t'. r \<noteq> Normal t'" by simp_all
  from ramp_cycle_result [OF this(1)] n
  show "plan s' = plan s" "trace s' = trace s"
    by (cases r; simp)+
next
  fix t' s' assume c: "t < 100 \<and> canary_ramp w cfg t s = Some (Normal t', s')"
  then have lt: "t < 100" and r: "canary_ramp w cfg t s = Some (Normal t', s')" by simp_all
  from canary_ramp_partial [OF r] obtain ts where ch: "ramp_chain (traffic_increment cfg) t ts"
    and cs: "(case fst (Normal t', s') of
            Normal t'' \<Rightarrow> t'' = last (t # ts) \<and> 100 \<le> t''
                         \<and> length ts = validations (snd (Normal t', s')) - validations s
                         \<and> (if ts = [] then snd (Normal t', s') = s
                            else canary_progress t''
                                   = Some (progress_percentage (plan (snd (Normal t', s')))))
          | Return b \<Rightarrow> \<not> b \<and> last (t # ts) < 100
          | Raise e \<Rightarrow> last (t # ts) < 100)"
    by blast
  then have 1: "t' = last (t # ts)" "100 \<le> t'"
    and 2: "if ts = [] then s' = s
            else canary_progress t' = Some (progress_percentage (plan s'))"
    by (auto split: if_splits)
  have ne: "ts \<noteq> []" using 1 lt by auto
  then have "t' \<in> set ts" using 1 by simp
  then have "t' \<le> 100" using ramp_chain_bounds [OF ch] by blast
  then show t100: "t' = 100" using 1 by simp
  show "progress_percentage (plan s') = 90"
    using 2 ne t100 canary_progress_values(5) by simp
next
  fix s' assume e: "execute_canary_deployment w cfg s = Some (Return True, s')"
  from execute_canary_true [OF e] obtain s2 :: "run \<times> run" where
    "canary_step_4 w (snd s2) = (Return True, s')" by blast
  note f = canary_step_4_true [OF this]
  show "progress_percentage (plan s') = 100" using f by simp
  show "\<exists>q tr. trace s' = tr @ [q\<lparr>progress_percentage := 95\<rparr>, q\<lparr>progress_percentage := 100\<rparr>]"
    using f by blast
qed

theorem canary_progress_weighting_witness:
  "(\<exists>s'. ramp_cycle calm_world default_config 10 (start_run (canary_plan [''api'']))
            = (Normal 30, s')
         \<and> progress_percentage (plan s') = 41)
   \<and> (\<exists>s'. execute_canary_deployment calm_world default_config (start_run (canary_plan [''api'']))
            = Some (Return True, s')
         \<and> progress_percentage (plan s') = 100)"
proof -
  let ?s = "start_run (canary_plan [''api''])"
  have q: "returns_for calm_world (services (plan s))" for s
    by (auto simp: returns_for_def calm_world_def)
  have v: "validate_canary_metrics default_config (prometheus calm_world k)" for k
    using healthy_passes by (simp add: calm_world_def)
  have c: "initial_traffic_percentage default_config = 10" "traffic_increment default_config = 20"
    by (simp_all add: default_config_def)
  have "\<exists>s1. ramp_cycle calm_world default_config 10 ?s = (Normal 30, s1)"
    by (simp add: ramp_cycle_pass [OF q v] c canary_progress_values)
  then obtain s1 where s1: "ramp_cycle calm_world default_config 10 ?s = (Normal 30, s1)" ..
  have "\<exists>s2. execute_canary_deployment calm_world default_config ?s
                         = Some (Return True, s2)"
    by (simp add: q v c execute_canary_deployment_def canary_steps_1_2_def canary_step_4_def
          canary_except_def seq_def stmt_def return_def plan_write_defs canary_progress_values
          deploy_returns route_returns promote_returns canary_ramp_pass_step canary_ramp_done)
  then obtain s2 where s2: "execute_canary_deployment calm_world default_config ?s
                         = Some (Return True, s2)" ..
  note t = canary_progress_weighting [where w = calm_world and cfg = default_config and t = 10
      and s = ?s]
  have "progress_percentage (plan s1) = 41"
    using t [THEN conjunct1, rule_format, OF s1] canary_progress_values(1) by simp
  moreover have "progress_percentage (plan s2) = 100"
    using t [THEN conjunct2, THEN conjunct2, THEN conjunct2, rule_format, OF s2] by simp
  ultimately show ?thesis using s1 s2 by blast
qed

text \<open>
  A cycle that raises the traffic from 10 to 33 sets the progress to
  \<open>1516446437028659 / 2 ^ 45\<close>, which Python prints as \<^verbatim>\<open>43.099999999999994\<close>: it is
  neither \<open>20 + 0.7 * 33\<close> nor the float nearest to that number.
\<close>

theorem progress_at_33_is_not_exact:
  "\<exists>s'. ramp_cycle calm_world (default_config\<lparr>traffic_increment := 23\<rparr>) 10
           (start_run (canary_plan [''api''])) = (Normal 33, s')
        \<and> progress_percentage (plan s') = 1516446437028659 / 2 ^ 45
        \<and> progress_percentage (plan s') \<noteq> 20 + 0.7 * 33
        \<and> progress_percentage (plan s') \<noteq> binary64 (20 + 0.7 * 33)"
proof -
  let ?cfg = "default_config\<lparr>traffic_increment := 23\<rparr>"
  let ?s = "start_run (canary_plan [''api''])"
  have q: "returns_for calm_world (services (plan ?s))"
    by (auto simp: returns_for_def calm_world_def)
  have v: "validate_canary_metrics ?cfg (prometheus calm_world (validations ?s))"
    by (simp add: calm_world_def validate_canary_metrics_def check_reply_def healthy_def
          default_config_def)
  have m: "min 100 (10 + traffic_increment ?cfg) = 33" by (simp add: default_config_def)
  have c: "canary_progress (min 100 (10 + traffic_increment ?cfg)) \<noteq> None"
    by (simp add: m canary_progress_values)
  have n: "binary64 (431 / 10) = 6065785748114637 / 2 ^ 47"
    by (simp add: float_defs)
  show ?thesis
    by (simp add: ramp_cycle_pass [OF q v c] m n canary_progress_values plan_write_defs)
qed

section \<open>Properties of the status of a plan\<close>

lemma writes_progressD: "writes_progress m \<Longrightarrow> m s = (r, s') \<Longrightarrow> only_progress s s'"
  unfolding writes_progress_def by (metis snd_conv)

lemma writes_progress_seq:
  assumes "writes_progress m" and "\<And>v. writes_progress (k v)"
  shows "writes_progress (seq m k)"
  unfolding writes_progress_def
proof
  fix s
  obtain r s1 where m: "m s = (r, s1)" by (cases "m s")
  note o1 = writes_progressD [OF assms(1) m]
  show "only_progress s (snd (seq m k s))"
  proof (cases r)
    case (Normal v)
    obtain r2 s2 where k: "k v s1 = (r2, s2)" by (cases "k v s1")
    from writes_progressD [OF assms(2) k] o1 have "only_progress s s2"
      by (blast intro: only_progress_trans)
    then show ?thesis using m Normal k by (simp add: seq_def)
  next
    case (Return b) then show ?thesis using m o1 by (simp add: seq_def)
  next
    case (Raise e) then show ?thesis using m o1 by (simp add: seq_def)
  qed
qed

lemma writes_progress_set: "writes_progress (stmt (set_progress v))"
  by (simp add: writes_progress_def stmt_def only_progress_def plan_write_defs
        same_but_progress_set)

lemma writes_progress_return: "writes_progress (return b)"
  by (simp add: writes_progress_def return_def only_progress_refl)

lemma writes_progress_if:
  "writes_progress m \<Longrightarrow> writes_progress n \<Longrightarrow> writes_progress (if c then m else n)"
  by simp

lemma writes_progress_for_services:
  assumes "\<And>x. writes_progress (body x)"
  shows "writes_progress (for_services body xs)"
  unfolding writes_progress_def
proof
  fix s show "only_progress s (snd (for_services body xs s))"
  proof (induction xs arbitrary: s)
    case Nil then show ?case by (simp add: only_progress_refl)
  next
    case (Cons x xs)
    obtain r s1 where b: "body x s = (r, s1)" by (cases "body x s")
    note o1 = writes_progressD [OF assms b]
    show ?case
    proof (cases r)
      case (Normal v)
      then show ?thesis using b o1 Cons.IH [of s1] by (auto intro: only_progress_trans)
    next
      case (Return c) then show ?thesis using b o1 by simp
    next
      case (Raise e) then show ?thesis using b o1 by simp
    qed
  qed
qed

lemma writes_progress_plain_except:
  assumes "writes_progress m"
  shows "writes_progress (\<lambda>s. plain_except (m s))"
  unfolding writes_progress_def
proof
  fix s
  obtain r s1 where m: "m s = (r, s1)" by (cases "m s")
  from writes_progressD [OF assms m] show "only_progress s (snd (plain_except (m s)))"
    using m by (cases r) (simp_all add: plain_except_def)
qed

lemmas writes_progress_intros =
  writes_progress_seq writes_progress_set writes_progress_return writes_progress_if
  keeps_plan_writes_progress [OF keeps_plan_call] keeps_plan_writes_progress [OF keeps_plan_ask]
  keeps_plan_writes_progress [OF keeps_plan_sleep]

lemma writes_progress_blue_green: "writes_progress (execute_blue_green_deployment w cfg)"
proof -
  have "writes_progress (\<lambda>s. plain_except
       ((seq (stmt (set_progress 20))
          (\<lambda>u. seq (call w deploy_green_environment)
             (\<lambda>u. seq (stmt (set_progress 50))
                (\<lambda>u. seq (stmt (sleep (validation_duration cfg)))
                   (\<lambda>u. seq (ask w validate_green_environment)
                      (\<lambda>ok. if \<not> ok then return False
                            else seq (stmt (set_progress 80))
                              (\<lambda>u. seq (if auto_promotion cfg then call w switch_traffic_to_green
                                        else seq (stmt (sleep 60))
                                               (\<lambda>u. call w switch_traffic_to_green))
                                 (\<lambda>u. seq (stmt (set_progress 95))
                                    (\<lambda>u. seq (call w cleanup_blue_environment)
                                       (\<lambda>u. seq (stmt (set_progress 100))
                                          (\<lambda>u. return True))))))))))) s))"
    by (intro writes_progress_plain_except writes_progress_intros)
  then show ?thesis
    unfolding writes_progress_def execute_blue_green_deployment_def .
qed

lemma writes_progress_update_services: "writes_progress (update_services w update)"
proof -
  have "writes_progress (stmt (\<lambda>s'. set_progress (f s') s'))" for f
    by (simp add: writes_progress_def stmt_def only_progress_def plan_write_defs
          same_but_progress_set)
  then have "writes_progress (for_services
       (\<lambda>svc. seq (call w (update svc))
          (\<lambda>u. stmt (\<lambda>s'. set_progress
                  (float_add (progress_percentage (plan s'))
                     (true_div 60 (int (length (services (plan s')))))) s')))
       xs)" for xs
    by (intro writes_progress_for_services writes_progress_intros)
  then show ?thesis unfolding writes_progress_def update_services_def by blast
qed

lemma writes_progress_rolling: "writes_progress (execute_rolling_deployment w)"
proof -
  have "writes_progress (\<lambda>s. plain_except
       ((seq (stmt (set_progress 20))
          (\<lambda>u. seq (update_services w update_service_rolling)
             (\<lambda>u. seq (stmt (set_progress 90))
                (\<lambda>u. seq (ask w validate_rolling_deployment)
                   (\<lambda>ok. if \<not> ok then return False
                         else seq (stmt (set_progress 100)) (\<lambda>u. return True)))))) s))"
    by (intro writes_progress_plain_except writes_progress_intros writes_progress_update_services)
  then show ?thesis unfolding writes_progress_def execute_rolling_deployment_def .
qed

lemma writes_progress_immediate: "writes_progress (execute_immediate_deployment w)"
proof -
  have "writes_progress (\<lambda>s. plain_except
       ((seq (stmt (set_progress 20))
          (\<lambda>u. seq (update_services w update_service_immediate)
             (\<lambda>u. seq (stmt (set_progress 90))
                (\<lambda>u. seq (ask w validate_immediate_deployment)
                   (\<lambda>ok. if \<not> ok then return False
                         else seq (stmt (set_progress 100)) (\<lambda>u. return True)))))) s))"
    by (intro writes_progress_plain_except writes_progress_intros writes_progress_update_services)
  then show ?thesis unfolding writes_progress_def execute_immediate_deployment_def .
qed

lemma ends_at_100_seq:
  assumes "no_return m" and "\<And>v. ends_at_100 (k v)"
  shows "ends_at_100 (seq m k)"
  unfolding ends_at_100_def
proof (intro allI impI)
  fix s s' assume e: "seq m k s = (Return True, s')"
  obtain r s1 where m: "m s = (r, s1)" by (cases "m s")
  show "progress_percentage (plan s') = 100"
  proof (cases r)
    case (Normal v)
    then have "k v s1 = (Return True, s')" using e m by (simp add: seq_def)
    then show ?thesis using assms(2) [of v] unfolding ends_at_100_def by blast
  next
    case (Return b) then show ?thesis using no_returnD [OF assms(1)] m by metis
  next
    case (Raise x) then show ?thesis using e m by (simp add: seq_def)
  qed
qed

lemma ends_at_100_return_False: "ends_at_100 (return False)"
  by (simp add: ends_at_100_def return_def)

lemma ends_at_100_final: "ends_at_100 (seq (stmt (set_progress 100)) (\<lambda>u. return True))"
  by (auto simp: ends_at_100_def seq_def stmt_def return_def plan_write_defs)

lemma ends_at_100_if:
  "ends_at_100 m \<Longrightarrow> ends_at_100 n \<Longrightarrow> ends_at_100 (if c then m else n)"
  by simp

lemma ends_at_100_plain_except:
  assumes "ends_at_100 m"
  shows "ends_at_100 (\<lambda>s. plain_except (m s))"
  unfolding ends_at_100_def
proof (intro allI impI)
  fix s s' assume e: "plain_except (m s) = (Return True, s')"
  obtain r s1 where m: "m s = (r, s1)" by (cases "m s")
  have "m s = (Return True, s')" using e m by (cases r) (simp_all add: plain_except_def)
  then show "progress_percentage (plan s') = 100"
    using assms unfolding ends_at_100_def by blast
qed

lemma no_return_update_services: "no_return (update_services w update)"
proof -
  have "no_return (for_services
       (\<lambda>svc. seq (call w (update svc))
          (\<lambda>u. stmt (\<lambda>s'. set_progress
                  (float_add (progress_percentage (plan s'))
                     (true_div 60 (int (length (services (plan s')))))) s')))
       xs)" for xs
    by (intro no_return_for_services no_return_seq no_return_call no_return_stmt)
  then show ?thesis unfolding no_return_def update_services_def by blast
qed

lemmas ends_at_100_intros =
  ends_at_100_final ends_at_100_return_False ends_at_100_if ends_at_100_seq
  no_return_stmt no_return_call no_return_ask no_return_seq no_return_update_services

lemma no_return_if: "no_return m \<Longrightarrow> no_return n \<Longrightarrow> no_return (if c then m else n)"
  by simp

lemma ends_at_100_blue_green: "ends_at_100 (execute_blue_green_deployment w cfg)"
proof -
  have "ends_at_100 (\<lambda>s. plain_except
       ((seq (stmt (set_progress 20))
          (\<lambda>u. seq (call w deploy_green_environment)
             (\<lambda>u. seq (stmt (set_progress 50))
                (\<lambda>u. seq (stmt (sleep (validation_duration cfg)))
                   (\<lambda>u. seq (ask w validate_green_environment)
                      (\<lambda>ok. if \<not> ok then return False
                            else seq (stmt (set_progress 80))
                              (\<lambda>u. seq (if auto_promotion cfg then call w switch_traffic_to_green
                                        else seq (stmt (sleep 60))
                                               (\<lambda>u. call w switch_traffic_to_green))
                                 (\<lambda>u. seq (stmt (set_progress 95))
                                    (\<lambda>u. seq (call w cleanup_blue_environment)
                                       (\<lambda>u. seq (stmt (set_progress 100))
                                          (\<lambda>u. return True))))))))))) s))"
    by (intro ends_at_100_plain_except ends_at_100_final ends_at_100_return_False
          ends_at_100_if ends_at_100_seq no_return_if no_return_stmt no_return_call
          no_return_ask no_return_seq)
  then show ?thesis
    unfolding ends_at_100_def execute_blue_green_deployment_def .
qed

lemma ends_at_100_rolling: "ends_at_100 (execute_rolling_deployment w)"
proof -
  have "ends_at_100 (\<lambda>s. plain_except
       ((seq (stmt (set_progress 20))
          (\<lambda>u. seq (update_services w update_service_rolling)
             (\<lambda>u. seq (stmt (set_progress 90))
                (\<lambda>u. seq (ask w validate_rolling_deployment)
                   (\<lambda>ok. if \<not> ok then return False
                         else seq (stmt (set_progress 100)) (\<lambda>u. return True)))))) s))"
    by (intro ends_at_100_plain_except ends_at_100_final ends_at_100_return_False
          ends_at_100_if ends_at_100_seq no_return_stmt no_return_ask
          no_return_update_services)
  then show ?thesis unfolding ends_at_100_def execute_rolling_deployment_def .
qed

lemma ends_at_100_immediate: "ends_at_100 (execute_immediate_deployment w)"
proof -
  have "ends_at_100 (\<lambda>s. plain_except
       ((seq (stmt (set_progress 20))
          (\<lambda>u. seq (update_services w update_service_immediate)
             (\<lambda>u. seq (stmt (set_progress 90))
                (\<lambda>u. seq (ask w validate_immediate_deployment)
                   (\<lambda>ok. if \<not> ok then return False
                         else seq (stmt (set_progress 100)) (\<lambda>u. return True)))))) s))"
    by (intro ends_at_100_plain_except ends_at_100_final ends_at_100_return_False
          ends_at_100_if ends_at_100_seq no_return_stmt no_return_ask
          no_return_update_services)
  then show ?thesis unfolding ends_at_100_def execute_immediate_deployment_def .
qed

lemma canary_except_only_progress:
  assumes "canary_except w (c, s) = (c', s')"
  shows "only_progress s s'"
proof (cases c)
  case (Normal v) then show ?thesis using assms by (auto simp: canary_except_def only_progress_refl)
next
  case (Return b) then show ?thesis using assms by (auto simp: canary_except_def only_progress_refl)
next
  case (Raise e)
  have "keeps_plan (seq (rollback_canary_deployment w) (\<lambda>u. return False))"
    by (intro keeps_plan_seq keeps_plan_rollback_canary keeps_plan_return)
  from writes_progressD [OF keeps_plan_writes_progress [OF this]] show ?thesis
    using assms Raise by (simp add: canary_except_def)
qed

lemma writes_progress_steps_1_2: "writes_progress (canary_steps_1_2 w cfg)"
  unfolding canary_steps_1_2_def
  by (intro writes_progress_intros keeps_plan_writes_progress [OF keeps_plan_deploy]
        keeps_plan_writes_progress [OF keeps_plan_route])

lemma writes_progress_step_4: "writes_progress (canary_step_4 w)"
  unfolding canary_step_4_def
  by (intro writes_progress_intros keeps_plan_writes_progress [OF keeps_plan_promote])

lemma execute_canary_only_progress:
  assumes "execute_canary_deployment w cfg s = Some (c, s')"
  shows "only_progress s s'"
proof -
  obtain c1 s1 where a: "canary_steps_1_2 w cfg s = (c1, s1)"
    by (cases "canary_steps_1_2 w cfg s")
  note o1 = writes_progressD [OF writes_progress_steps_1_2 a]
  show ?thesis
  proof (cases c1)
    case (Normal u)
    obtain y where rp: "canary_ramp w cfg (initial_traffic_percentage cfg) s1 = Some y"
      using assms a Normal by (auto simp: execute_canary_deployment_def split: option.splits)
    obtain c2 s2 where y: "y = (c2, s2)" by (cases y)
    have o2: "only_progress s1 s2" using canary_ramp_partial [OF rp] y by simp
    show ?thesis
    proof (cases c2)
      case (Normal t)
      obtain c3 s3 where st: "canary_step_4 w s2 = (c3, s3)" by (cases "canary_step_4 w s2")
      note o3 = writes_progressD [OF writes_progress_step_4 st]
      have "canary_except w (c3, s3) = (c, s')"
        using assms a \<open>c1 = Normal u\<close> rp y Normal st by (simp add: execute_canary_deployment_def)
      from canary_except_only_progress [OF this] show ?thesis
        using o1 o2 o3 by (blast intro: only_progress_trans)
    next
      case (Return b)
      then have "canary_except w (Return b, s2) = (c, s')"
        using assms a \<open>c1 = Normal u\<close> rp y by (simp add: execute_canary_deployment_def)
      from canary_except_only_progress [OF this] show ?thesis
        using o1 o2 by (blast intro: only_progress_trans)
    next
      case (Raise e)
      then have "canary_except w (Raise e, s2) = (c, s')"
        using assms a \<open>c1 = Normal u\<close> rp y by (simp add: execute_canary_deployment_def)
      from canary_except_only_progress [OF this] show ?thesis
        using o1 o2 by (blast intro: only_progress_trans)
    qed
  next
    case (Return b)
    then have "canary_except w (Return b, s1) = (c, s')"
      using assms a by (simp add: execute_canary_deployment_def)
    from canary_except_only_progress [OF this] show ?thesis
      using o1 by (blast intro: only_progress_trans)
  next
    case (Raise e)
    then have "canary_except w (Raise e, s1) = (c, s')"
      using assms a by (simp add: execute_canary_deployment_def)
    from canary_except_only_progress [OF this] show ?thesis
      using o1 by (blast intro: only_progress_trans)
  qed
qed

lemma dispatch_only_progress:
  assumes "dispatch w cfg s = Some (c, s')"
  shows "only_progress s s'"
proof (cases "strategy (plan s)")
  case CANARY
  then show ?thesis using assms execute_canary_only_progress by (simp add: dispatch_def)
next
  case BLUE_GREEN
  then show ?thesis using assms writes_progressD [OF writes_progress_blue_green]
    by (simp add: dispatch_def)
next
  case ROLLING_UPDATE
  then show ?thesis using assms writes_progressD [OF writes_progress_rolling]
    by (simp add: dispatch_def)
next
  case IMMEDIATE
  then show ?thesis using assms writes_progressD [OF writes_progress_immediate]
    by (simp add: dispatch_def)
qed

lemma dispatch_true:
  assumes "dispatch w cfg s = Some (Return True, s')"
  shows "progress_percentage (plan s') = 100"
proof (cases "strategy (plan s)")
  case CANARY
  then have e: "execute_canary_deployment w cfg s = Some (Return True, s')"
    using assms by (simp add: dispatch_def)
  from execute_canary_true [OF e] obtain s2 :: "run \<times> run" where
    "canary_step_4 w (snd s2) = (Return True, s')" by blast
  from canary_step_4_true [OF this] show ?thesis by simp
next
  case BLUE_GREEN
  then show ?thesis using assms ends_at_100_blue_green [of w cfg]
    by (simp add: dispatch_def ends_at_100_def)
next
  case ROLLING_UPDATE
  then show ?thesis using assms ends_at_100_rolling [of w]
    by (simp add: dispatch_def ends_at_100_def)
next
  case IMMEDIATE
  then show ?thesis using assms ends_at_100_immediate [of w]
    by (simp add: dispatch_def ends_at_100_def)
qed

lemma execute_rollback_plan:
  "plan (execute_rollback w cfg s) = (plan s)\<lparr>status := ROLLED_BACK\<rparr>
   \<and> trace (execute_rollback w cfg s) = trace s @ [(plan s)\<lparr>status := ROLLED_BACK\<rparr>]"
proof -
  have n: "keeps_plan (stmt (send_rollback_notification w cfg))"
    by (simp add: keeps_plan_def stmt_def send_rollback_notification_eq)
  have "keeps_plan (seq (case st of
                 CANARY \<Rightarrow> rollback_canary_deployment w
               | BLUE_GREEN \<Rightarrow> call w rollback_blue_green_deployment
               | ROLLING_UPDATE \<Rightarrow> call w rollback_standard_deployment
               | IMMEDIATE \<Rightarrow> call w rollback_standard_deployment)
              (\<lambda>u. stmt (send_rollback_notification w cfg)))" for st
    by (cases st) (auto intro!: keeps_plan_seq keeps_plan_rollback_canary keeps_plan_call n)
  then show ?thesis
    unfolding execute_rollback_def keeps_plan_def
    by (simp add: plan_write_defs)
qed

lemma conclude_true:
  "plan (conclude w cfg True s) = (plan s)\<lparr>status := COMPLETED, progress_percentage := 100\<rparr>
   \<and> trace (conclude w cfg True s)
       = trace s @ [(plan s)\<lparr>status := COMPLETED\<rparr>,
                    (plan s)\<lparr>status := COMPLETED, progress_percentage := 100\<rparr>]"
  by (simp add: conclude_def plan_write_defs)

lemma conclude_false:
  "plan (conclude w cfg False s)
     = (plan s)\<lparr>status := if rollback_on_failure (plan s) then ROLLED_BACK else FAILED\<rparr>
   \<and> trace (conclude w cfg False s)
       = trace s @ (plan s)\<lparr>status := FAILED\<rparr>
                   # (if rollback_on_failure (plan s) then [(plan s)\<lparr>status := ROLLED_BACK\<rparr>]
                      else [])"
  by (simp add: conclude_def Let_def execute_rollback_plan) (simp add: plan_write_defs)

lemma handle_error_plan:
  "plan (handle_error w cfg e s)
     = (plan s)\<lparr>status := if rollback_on_failure (plan s) then ROLLED_BACK else FAILED,
                 error_message := Some e\<rparr>
   \<and> trace (handle_error w cfg e s)
       = trace s @ (plan s)\<lparr>status := FAILED\<rparr>
                   # (plan s)\<lparr>status := FAILED, error_message := Some e\<rparr>
                   # (if rollback_on_failure (plan s)
                      then [(plan s)\<lparr>status := ROLLED_BACK, error_message := Some e\<rparr>] else [])"
  by (simp add: handle_error_def Let_def execute_rollback_plan) (simp add: plan_write_defs)

lemma settled_in_progress:
  "list_all (\<lambda>q. status q = IN_PROGRESS) xs \<Longrightarrow> settled (xs @ ys) = settled ys"
  by (induction xs) simp_all

lemma same_but_progress_in_progress:
  assumes "list_all (same_but_progress p) xs" and "status p = IN_PROGRESS"
  shows "list_all (\<lambda>q. status q = IN_PROGRESS) xs"
proof -
  have "status q = IN_PROGRESS" if "q \<in> set xs" for q
    using that assms same_but_progress_fields(4) [of p q] by (auto simp: list_all_iff)
  then show ?thesis by (simp add: list_all_iff)
qed

lemma run_deployment_shape:
  assumes "run_deployment w cfg p = Some s"
  shows "\<exists>xs q tail. trace s = xs @ tail \<and> list_all (\<lambda>q. status q = IN_PROGRESS) xs
           \<and> last (trace s) = plan s \<and> same_but_progress (p\<lparr>status := IN_PROGRESS\<rparr>) q
           \<and> ((tail = [q\<lparr>status := COMPLETED\<rparr>, q\<lparr>status := COMPLETED\<rparr>]
                  \<and> progress_percentage q = 100)
               \<or> tail = q\<lparr>status := FAILED\<rparr>
                          # (if rollback_on_failure p then [q\<lparr>status := ROLLED_BACK\<rparr>] else [])
               \<or> (\<exists>e. tail = q\<lparr>status := FAILED\<rparr>
                               # q\<lparr>status := FAILED, error_message := Some e\<rparr>
                               # (if rollback_on_failure p
                                  then [q\<lparr>status := ROLLED_BACK, error_message := Some e\<rparr>]
                                  else [])))"
proof -
  let ?p1 = "p\<lparr>status := IN_PROGRESS\<rparr>"
  define s1 where "s1 = set_status IN_PROGRESS (start_run p)"
  have s1: "plan s1 = ?p1" "trace s1 = [?p1]"
    by (simp_all add: s1_def plan_write_defs start_run_def)
  have r: "run_deployment w cfg p =
     (case gitops w of
        Some e \<Rightarrow> Some (handle_error w cfg e s1)
      | None \<Rightarrow>
          (case dispatch w cfg s1 of
             None \<Rightarrow> None
           | Some (Return b, s2) \<Rightarrow> Some (conclude w cfg b s2)
           | Some (Normal v, s2) \<Rightarrow> Some (conclude w cfg False s2)
           | Some (Raise e, s2) \<Rightarrow> Some (handle_error w cfg e s2)))"
    unfolding run_deployment_def Let_def s1_def by (rule refl)
  have fin: "\<exists>xs q tail. trace s = xs @ tail \<and> list_all (\<lambda>q. status q = IN_PROGRESS) xs
           \<and> last (trace s) = plan s \<and> same_but_progress ?p1 q
           \<and> ((tail = [q\<lparr>status := COMPLETED\<rparr>, q\<lparr>status := COMPLETED\<rparr>]
                  \<and> progress_percentage q = 100)
               \<or> tail = q\<lparr>status := FAILED\<rparr>
                          # (if rollback_on_failure p then [q\<lparr>status := ROLLED_BACK\<rparr>] else [])
               \<or> (\<exists>e. tail = q\<lparr>status := FAILED\<rparr>
                               # q\<lparr>status := FAILED, error_message := Some e\<rparr>
                               # (if rollback_on_failure p
                                  then [q\<lparr>status := ROLLED_BACK, error_message := Some e\<rparr>]
                                  else [])))"
    if o: "only_progress s1 s2"
      and c: "(s = conclude w cfg True s2 \<and> progress_percentage (plan s2) = 100)
              \<or> s = conclude w cfg False s2 \<or> (\<exists>e. s = handle_error w cfg e s2)"
    for s2
  proof -
    from o obtain new where n: "same_but_progress ?p1 (plan s2)" "trace s2 = [?p1] @ new"
      "list_all (same_but_progress ?p1) new"
      using s1 by (auto simp: only_progress_def)
    have ip: "list_all (\<lambda>q. status q = IN_PROGRESS) (trace s2)"
      using same_but_progress_in_progress [OF n(3)] n(2) by simp
    have rb: "rollback_on_failure (plan s2) = rollback_on_failure p"
      using same_but_progress_fields(3) [OF n(1)] by simp
    let ?q = "plan s2"
    have q100: "progress_percentage ?q = 100 \<Longrightarrow>
                  ?q\<lparr>status := COMPLETED, progress_percentage := 100\<rparr> = ?q\<lparr>status := COMPLETED\<rparr>"
      by (cases ?q) simp
    from c show ?thesis
    proof (elim disjE conjE exE)
      assume e: "s = conclude w cfg True s2" and h: "progress_percentage (plan s2) = 100"
      show ?thesis
        by (rule exI [of _ "trace s2"], rule exI [of _ ?q],
            rule exI [of _ "[?q\<lparr>status := COMPLETED\<rparr>, ?q\<lparr>status := COMPLETED\<rparr>]"])
           (simp add: e conclude_true ip n(1) h q100)
    next
      assume e: "s = conclude w cfg False s2"
      show ?thesis
        by (rule exI [of _ "trace s2"], rule exI [of _ ?q],
            rule exI [of _ "?q\<lparr>status := FAILED\<rparr>
                          # (if rollback_on_failure p then [?q\<lparr>status := ROLLED_BACK\<rparr>] else [])"])
           (simp add: e conclude_false ip n(1) rb)
    next
      fix x assume e: "s = handle_error w cfg x s2"
      show ?thesis
        by (rule exI [of _ "trace s2"], rule exI [of _ ?q],
            rule exI [of _ "?q\<lparr>status := FAILED\<rparr>
                               # ?q\<lparr>status := FAILED, error_message := Some x\<rparr>
                               # (if rollback_on_failure p
                                  then [?q\<lparr>status := ROLLED_BACK, error_message := Some x\<rparr>]
                                  else [])"])
           (auto simp: e handle_error_plan ip n(1) rb)
    qed
  qed
  show ?thesis
  proof (cases "gitops w")
    case (Some e)
    then have "s = handle_error w cfg e s1" using assms r by simp
    then have "\<exists>e. s = handle_error w cfg e s1" ..
    then show ?thesis by (intro fin [OF only_progress_refl] disjI2)
  next
    case None
    then obtain c s2 where d: "dispatch w cfg s1 = Some (c, s2)"
      using assms r by (cases "dispatch w cfg s1") auto
    note o = dispatch_only_progress [OF d]
    show ?thesis
    proof (cases c)
      case (Normal v)
      then have "s = conclude w cfg False s2" using assms r None d by simp
      then show ?thesis by (intro fin [OF o] disjI2 disjI1)
    next
      case (Return b)
      then have e: "s = conclude w cfg b s2" using assms r None d by simp
      show ?thesis
      proof (cases b)
        case True
        then have "progress_percentage (plan s2) = 100"
          using dispatch_true [of w cfg s1 s2] d Return by simp
        then have "s = conclude w cfg True s2 \<and> progress_percentage (plan s2) = 100"
          using e True by simp
        then show ?thesis by (intro fin [OF o] disjI1)
      next
        case False
        then have "s = conclude w cfg False s2" using e by simp
        then show ?thesis by (intro fin [OF o] disjI2 disjI1)
      qed
    next
      case (Raise x)
      then have "s = handle_error w cfg x s2" using assms r None d by simp
      then have "\<exists>e. s = handle_error w cfg e s2" ..
      then show ?thesis by (intro fin [OF o] disjI2)
    qed
  qed
qed

text \<open>
  C2, as the code has it. Along an execution that returns, once the plan's status is
  \<^verbatim>\<open>COMPLETED\<close> or \<^verbatim>\<open>ROLLED_BACK\<close> no field of the plan changes any more; \<^verbatim>\<open>FAILED\<close> is
  not final inside \<^verbatim>\<open>execute_deployment\<close>: after it the error message may be set
  and, with \<^verbatim>\<open>rollback_on_failure\<close>, the status becomes \<^verbatim>\<open>ROLLED_BACK\<close>, and nothing
  else changes. The execution ends with status \<^verbatim>\<open>COMPLETED\<close>, \<^verbatim>\<open>ROLLED_BACK\<close>, or
  \<^verbatim>\<open>FAILED\<close> when the plan has no rollback; the plan is then in the history and no
  longer in the registry, and a later \<^verbatim>\<open>execute_deployment\<close> of its id returns \<^verbatim>\<open>False\<close>
  and changes nothing.
\<close>

theorem terminal_status_is_kept:
  assumes "active_deployments a pid = Some p" and "run_deployment w cfg p = Some s"
  shows "settled (trace s) \<and> last (trace s) = plan s
       \<and> (status (plan s) = COMPLETED \<or> status (plan s) = ROLLED_BACK
          \<or> (status (plan s) = FAILED \<and> \<not> rollback_on_failure p))
       \<and> (\<exists>a'. execute_deployment w cfg pid a = Some (status (plan s) = COMPLETED, a')
              \<and> deployment_history a' = deployment_history a @ [plan s]
              \<and> active_deployments a' pid = None
              \<and> (\<forall>w' cfg'. execute_deployment w' cfg' pid a' = Some (False, a')))"
proof -
  from run_deployment_shape [OF assms(2)] obtain xs q tail where
    t: "trace s = xs @ tail" and ip: "list_all (\<lambda>q. status q = IN_PROGRESS) xs"
    and l: "last (trace s) = plan s"
    and c: "(tail = [q\<lparr>status := COMPLETED\<rparr>, q\<lparr>status := COMPLETED\<rparr>]
                  \<and> progress_percentage q = 100)
               \<or> tail = q\<lparr>status := FAILED\<rparr>
                          # (if rollback_on_failure p then [q\<lparr>status := ROLLED_BACK\<rparr>] else [])
               \<or> (\<exists>e. tail = q\<lparr>status := FAILED\<rparr>
                               # q\<lparr>status := FAILED, error_message := Some e\<rparr>
                               # (if rollback_on_failure p
                                  then [q\<lparr>status := ROLLED_BACK, error_message := Some e\<rparr>]
                                  else []))"
    by blast
  have st: "settled tail \<and> tail \<noteq> []
      \<and> (status (last tail) = COMPLETED \<or> status (last tail) = ROLLED_BACK
          \<or> (status (last tail) = FAILED \<and> \<not> rollback_on_failure p))"
    using c by (elim disjE exE conjE) simp_all
  have 1: "settled (trace s)" using st t settled_in_progress [OF ip] by simp
  have "plan s = last tail" using l t st by simp
  then have 2: "status (plan s) = COMPLETED \<or> status (plan s) = ROLLED_BACK
          \<or> (status (plan s) = FAILED \<and> \<not> rollback_on_failure p)"
    using st by simp
  let ?a' = "a\<lparr>deployment_history := deployment_history a @ [plan s],
               active_deployments := (active_deployments a)(pid := None)\<rparr>"
  have 3: "execute_deployment w cfg pid a = Some (status (plan s) = COMPLETED, ?a')"
    by (rule execute_deployment_run [OF assms])
  have 4: "execute_deployment w' cfg' pid ?a' = Some (False, ?a')" for w' cfg'
    by (simp add: execute_deployment_def)
  have "\<exists>a'. execute_deployment w cfg pid a = Some (status (plan s) = COMPLETED, a')
              \<and> deployment_history a' = deployment_history a @ [plan s]
              \<and> active_deployments a' pid = None
              \<and> (\<forall>w' cfg'. execute_deployment w' cfg' pid a' = Some (False, a'))"
    by (rule exI [of _ ?a']) (simp add: 3 4)
  then show ?thesis using 1 2 l by simp
qed

lemma shipped_run:
  "run_deployment shipped_world default_config (canary_plan [''video-processor''])
     = Some (execute_rollback shipped_world default_config
              (set_error_message ''AttributeError''
                (set_status FAILED
                  ((set_progress 10
                     (set_status IN_PROGRESS (start_run (canary_plan [''video-processor'']))))
                   \<lparr>calls := [apply_canary_manifest ''video-processor'',
                              apply_traffic_routing ''video-processor'' 0]\<rparr>))))"
  by (simp add: run_deployment_def Let_def dispatch_def execute_canary_deployment_def
        canary_steps_1_2_def canary_except_def rollback_canary_deployment_def
        route_traffic_to_canary_def deploy_canary_version_def handle_error_def
        seq_def stmt_def call_def ask_def shipped_world_def canary_plan_fields
        plan_write_defs start_run_def)

text \<open>
  C2 as stated fails: the plan of \<^verbatim>\<open>main()\<close>, run where the cluster helpers raise,
  has its status set to \<^verbatim>\<open>FAILED\<close>, then its error message set, then its status
  changed to \<^verbatim>\<open>ROLLED_BACK\<close>.
\<close>

theorem failed_then_rolled_back:
  "map_option (\<lambda>s. map status (trace s))
     (run_deployment shipped_world default_config (canary_plan [''video-processor'']))
   = Some [IN_PROGRESS, IN_PROGRESS, FAILED, FAILED, ROLLED_BACK]"
  by (simp add: shipped_run execute_rollback_plan) (simp add: plan_write_defs start_run_def)

theorem terminal_status_is_kept_witness:
  "(\<exists>s. run_deployment shipped_world default_config (canary_plan [''video-processor'']) = Some s
        \<and> settled (trace s) \<and> last (trace s) = plan s \<and> status (plan s) = ROLLED_BACK
        \<and> (\<exists>a'. execute_deployment shipped_world default_config
                    (plan_id (canary_plan [''video-processor'']))
                    (registry_with (canary_plan [''video-processor''])) = Some (False, a')
               \<and> deployment_history a' = [plan s]
               \<and> execute_deployment calm_world default_config
                    (plan_id (canary_plan [''video-processor''])) a' = Some (False, a')))
   \<and> (\<exists>s. run_deployment calm_world default_config (canary_plan [''api'', ''web'']) = Some s
        \<and> settled (trace s) \<and> last (trace s) = plan s \<and> status (plan s) = COMPLETED)"
proof -
  let ?p = "canary_plan [''video-processor'']"
  let ?p2 = "canary_plan [''api'', ''web'']"
  have a: "active_deployments (registry_with p) (plan_id p) = Some p" for p
    by (simp add: registry_with_def)
  have h: "deployment_history (registry_with p) = []" for p
    by (simp add: registry_with_def empty_automation_def)
  obtain s where s: "run_deployment shipped_world default_config ?p = Some s"
    and st: "status (plan s) = ROLLED_BACK"
    using shipped_run by (simp add: execute_rollback_plan)
  note t = terminal_status_is_kept [OF a s]
  have 1: "\<exists>s. run_deployment shipped_world default_config ?p = Some s
        \<and> settled (trace s) \<and> last (trace s) = plan s \<and> status (plan s) = ROLLED_BACK
        \<and> (\<exists>a'. execute_deployment shipped_world default_config (plan_id ?p) (registry_with ?p)
                    = Some (False, a')
               \<and> deployment_history a' = [plan s]
               \<and> execute_deployment calm_world default_config (plan_id ?p) a' = Some (False, a'))"
    using t s st h by (intro exI [of _ s]) auto
  have v: "\<forall>k. validate_canary_metrics default_config (prometheus calm_world k)"
    using healthy_passes by (simp add: calm_world_def)
  have q: "returns_for calm_world (services ?p2)"
    by (auto simp: returns_for_def calm_world_def)
  obtain s2 where s2: "run_deployment calm_world default_config ?p2 = Some s2"
    and st2: "status (plan s2) = COMPLETED"
    using scenario_a [OF canary_plan_fields(1) _ _ _ v q]
    by (auto simp: calm_world_def default_config_def)
  note t2 = terminal_status_is_kept [OF a s2]
  have 2: "\<exists>s. run_deployment calm_world default_config ?p2 = Some s
        \<and> settled (trace s) \<and> last (trace s) = plan s \<and> status (plan s) = COMPLETED"
    using t2 s2 st2 by blast
  show ?thesis using 1 2 by (rule conjI)
qed


end
